theory Spec2Isabelle
  imports Main "HOL-Library.Sublist"
begin

section \<open>Values of the Go program\<close>

text \<open>
  \<^verbatim>\<open>type LogLevel int\<close> with the six constants declared by \<^verbatim>\<open>iota\<close>. Any integer
  is a \<^verbatim>\<open>LogLevel\<close>; the code only compares levels and switches on them, so no
  arithmetic can overflow and the unbounded integers model the type.
\<close>

type_synonym LogLevel = int

abbreviation DEBUG :: LogLevel where "DEBUG \<equiv> 0"
abbreviation INFO :: LogLevel where "INFO \<equiv> 1"
abbreviation WARNING :: LogLevel where "WARNING \<equiv> 2"
abbreviation ERROR :: LogLevel where "ERROR \<equiv> 3"
abbreviation CRITICAL :: LogLevel where "CRITICAL \<equiv> 4"
abbreviation FATAL :: LogLevel where "FATAL \<equiv> 5"

text \<open>\<^verbatim>\<open>func (loglevel LogLevel) String() string\<close>: a switch with a fall-through result.\<close>

definition LogLevel_String :: "LogLevel \<Rightarrow> string" where
  "LogLevel_String loglevel =
     (if loglevel = DEBUG then ''DEBUG''
      else if loglevel = INFO then ''INFO''
      else if loglevel = WARNING then ''WARNING''
      else if loglevel = ERROR then ''ERROR''
      else if loglevel = CRITICAL then ''CRITICAL''
      else if loglevel = FATAL then ''FATAL''
      else ''UNKNOWN'')"

text \<open>
  An \<^verbatim>\<open>io.Writer\<close> that is not the nil interface: the standard error stream or any
  other writer, named by a number. A \<^verbatim>\<open>*os.File\<close> whose opening failed is such a
  value too (its \<^verbatim>\<open>Write\<close> returns an error, which the code drops).
\<close>

datatype writer = Stderr | Writer nat

text \<open>
  A value of type \<^verbatim>\<open>interface{}\<close> by its dynamic type: a string, an int, a value
  whose type implements \<^verbatim>\<open>io.Writer\<close>, the nil interface, or a value of any other
  type.
\<close>

datatype dyn = VString string | VInt int | VWriter writer | VNil | VOther nat

record LogRecord =
  level :: LogLevel
  name :: string
  msg :: string
  args :: "dyn list"

definition NewLogRecord :: "LogLevel \<Rightarrow> string \<Rightarrow> string \<Rightarrow> dyn list \<Rightarrow> LogRecord" where
  "NewLogRecord lvl nm m as =
     \<lparr>LogRecord.level = lvl, name = nm, msg = m, args = as\<rparr>"

definition LogRecord_GetLevel :: "LogRecord \<Rightarrow> LogLevel" where
  "LogRecord_GetLevel r = LogRecord.level r"

record Formatter =
  fmt :: string
  dateFmt :: string

text \<open>\<^verbatim>\<open>func NewFormatter(params ...string)\<close>: the variadic parameters are a list.\<close>

definition NewFormatter :: "string list \<Rightarrow> Formatter" where
  "NewFormatter params =
     \<lparr>fmt = (if length params > 0 then params ! 0 else ''''),
      dateFmt = (if length params > 1 then params ! 1 else '''')\<rparr>"

section \<open>Library functions\<close>

text \<open>
  The functions of the Go standard library that the code calls and whose result the
  code only passes on are parameters of the model: \<^verbatim>\<open>fmt.Sprintf\<close>, the rendering
  \<^verbatim>\<open>time.Now().Format(layout)\<close> of the n-th reading of the clock,
  \<^verbatim>\<open>strings.ToLower\<close>, and the writer that \<^verbatim>\<open>os.OpenFile\<close> returns for a path.
\<close>

record env =
  Sprintf :: "string \<Rightarrow> dyn list \<Rightarrow> string"
  Now_Format :: "nat \<Rightarrow> string \<Rightarrow> string"
  ToLower :: "string \<Rightarrow> string"
  OpenFile :: "string \<Rightarrow> writer"

text \<open>
  \<^verbatim>\<open>strings.Replace(s, old, new, 1)\<close>: the leftmost occurrence of \<^verbatim>\<open>old\<close> in
  \<^verbatim>\<open>s\<close> is replaced by \<^verbatim>\<open>new\<close>; without an occurrence \<^verbatim>\<open>s\<close> is returned. An
  empty \<^verbatim>\<open>old\<close> matches at the beginning of \<^verbatim>\<open>s\<close>.
\<close>

fun Replace1 :: "string \<Rightarrow> string \<Rightarrow> string \<Rightarrow> string" where
  "Replace1 [] old new = (if old = [] then new else [])"
| "Replace1 (c # s) old new =
     (if prefix old (c # s) then new @ drop (length old) (c # s)
      else c # Replace1 s old new)"

text \<open>
  The part of \<^verbatim>\<open>fmt.Sprintf\<close> used by the scenario of the specification: literal
  text, \<^verbatim>\<open>%%\<close>, and the verbs \<^verbatim>\<open>%s\<close> and \<^verbatim>\<open>%v\<close> applied to a string operand,
  with exactly as many operands as verbs. Everything else is \<^verbatim>\<open>None\<close>: not
  modelled.
\<close>

fun Sprintf_fragment :: "string \<Rightarrow> dyn list \<Rightarrow> string option" where
  "Sprintf_fragment [] [] = Some []"
| "Sprintf_fragment [] (a # as) = None"
| "Sprintf_fragment [c] as =
     (if c = CHR ''%'' then None else map_option ((#) c) (Sprintf_fragment [] as))"
| "Sprintf_fragment (c # v # rest) as =
     (if c \<noteq> CHR ''%'' then map_option ((#) c) (Sprintf_fragment (v # rest) as)
      else if v = CHR ''%'' then map_option ((#) CHR ''%'') (Sprintf_fragment rest as)
      else if v = CHR ''s'' \<or> v = CHR ''v'' then
        (case as of
           VString x # as' \<Rightarrow> map_option ((@) x) (Sprintf_fragment rest as')
         | _ \<Rightarrow> None)
      else None)"

text \<open>
  An environment whose \<^verbatim>\<open>Sprintf\<close> is the modelled fragment where that is defined,
  and any function \<open>other\<close> elsewhere.
\<close>

definition with_Sprintf_fragment :: "(string \<Rightarrow> dyn list \<Rightarrow> string) \<Rightarrow> env \<Rightarrow> env" where
  "with_Sprintf_fragment other E =
     E\<lparr>Sprintf := (\<lambda>format operands.
          case Sprintf_fragment format operands of Some s \<Rightarrow> s | None \<Rightarrow> other format operands)\<rparr>"

section \<open>Formatter\<close>

text \<open>
  \<^verbatim>\<open>func (f *Formatter) Format(logRecord *LogRecord) string\<close>, for the formatter
  \<open>f\<close> and the clock reading number \<open>now\<close> taken by \<^verbatim>\<open>time.Now()\<close>.
\<close>

definition Format :: "env \<Rightarrow> nat \<Rightarrow> Formatter \<Rightarrow> LogRecord \<Rightarrow> string" where
  "Format E now f logRecord =
     (let message = (if length (args logRecord) > 0
                     then Sprintf E (msg logRecord) (args logRecord)
                     else msg logRecord);
          format = Replace1 (fmt f) ''{levelname}'' (LogLevel_String (LogRecord.level logRecord));
          format = Replace1 format ''{message}'' message;
          format = Replace1 format ''{asctime}'' (Now_Format E now (dateFmt f))
      in format)"

section \<open>The program state\<close>

text \<open>
  Loggers and handlers are reached through pointers and are mutated in place, so they
  live in a store, and a pointer is a reference into it. A reference without an object
  stands for a nil pointer or a nil interface value: calling a method through it panics.
\<close>

type_synonym ref = nat

text \<open>\<^verbatim>\<open>service.Service\<close> of the host-service package: stored, never used.\<close>

type_synonym Service = nat

record LogHandler =
  level :: LogLevel
  formatter :: "Formatter option"
  logger :: "writer option"

text \<open>
  The dynamic types behind an \<^verbatim>\<open>ILogHandler\<close>: \<^verbatim>\<open>*LogHandler\<close>,
  \<^verbatim>\<open>*StreamHandler\<close> (which embeds a LogHandler), \<^verbatim>\<open>*FileHandler\<close> (which embeds a
  StreamHandler and stores filename and mode) and \<^verbatim>\<open>*ServiceHandler\<close> (which embeds
  a LogHandler and stores the service).
\<close>

datatype handler =
    LogHandler_obj LogHandler
  | StreamHandler_obj LogHandler
  | FileHandler_obj LogHandler string string
  | ServiceHandler_obj LogHandler Service

fun embedded :: "handler \<Rightarrow> LogHandler" where
  "embedded (LogHandler_obj b) = b"
| "embedded (StreamHandler_obj b) = b"
| "embedded (FileHandler_obj b fn md) = b"
| "embedded (ServiceHandler_obj b sv) = b"

fun map_embedded :: "(LogHandler \<Rightarrow> LogHandler) \<Rightarrow> handler \<Rightarrow> handler" where
  "map_embedded g (LogHandler_obj b) = LogHandler_obj (g b)"
| "map_embedded g (StreamHandler_obj b) = StreamHandler_obj (g b)"
| "map_embedded g (FileHandler_obj b fn md) = FileHandler_obj (g b) fn md"
| "map_embedded g (ServiceHandler_obj b sv) = ServiceHandler_obj (g b) sv"

record Logger =
  level :: LogLevel
  name :: string
  handlers :: "ref list"

record Config =
  filename :: string
  filemode :: string
  format :: string
  datefmt :: string
  level :: LogLevel
  stream :: "writer option"

text \<open>
  The calls that leave the program: a \<^verbatim>\<open>Write\<close> on a writer, \<^verbatim>\<open>os.OpenFile\<close>, and
  the three operations of a \<^verbatim>\<open>service.Logger\<close>.
\<close>

datatype event =
    Write writer string
  | Open string
  | Logger_Warning nat string
  | Logger_Error nat string
  | Logger_Info nat string

text \<open>
  The package variables \<^verbatim>\<open>config\<close> and \<^verbatim>\<open>loggers.items\<close> of package spoor and
  \<^verbatim>\<open>logger\<close> of package servicehandler, the store, the number of clock readings taken
  so far, and the calls made so far.
\<close>

record state =
  config :: Config
  items :: "string \<Rightarrow> ref option"
  logger_heap :: "ref \<Rightarrow> Logger option"
  handler_heap :: "ref \<Rightarrow> handler option"
  next_ref :: ref
  servicehandler_logger :: "nat option"
  clock :: nat
  trace :: "event list"

text \<open>
  A call returns, or it does not: a run-time panic (a method called through nil, a failed
  type assertion) or \<^verbatim>\<open>os.Exit\<close>. Both results carry the state reached.
\<close>

datatype abort = Panic | Exit int

type_synonym 'a result = "(abort \<times> state) + ('a \<times> state)"

definition state_of :: "'a result \<Rightarrow> state" where
  "state_of res = (case res of Inl (a, s) \<Rightarrow> s | Inr (x, s) \<Rightarrow> s)"

definition initial_config :: Config where
  "initial_config =
     \<lparr>filename = [], filemode = [], format = ''{levelname}: {asctime} - {message}'',
      datefmt = ''2006-01-02 15:04:05'', Config.level = INFO, stream = None\<rparr>"

definition initial_state :: state where
  "initial_state =
     \<lparr>config = initial_config, items = (\<lambda>x. None), logger_heap = (\<lambda>r. None),
      handler_heap = (\<lambda>r. None), next_ref = 0, servicehandler_logger = None,
      clock = 0, trace = []\<rparr>"

text \<open>\<^verbatim>\<open>new(T)\<close> followed by the assignments that fill the object.\<close>

definition new_handler :: "handler \<Rightarrow> state \<Rightarrow> ref \<times> state" where
  "new_handler obj s =
     (next_ref s, s\<lparr>handler_heap := (handler_heap s)(next_ref s \<mapsto> obj),
                    next_ref := Suc (next_ref s)\<rparr>)"

definition new_logger :: "Logger \<Rightarrow> state \<Rightarrow> ref \<times> state" where
  "new_logger obj s =
     (next_ref s, s\<lparr>logger_heap := (logger_heap s)(next_ref s \<mapsto> obj),
                    next_ref := Suc (next_ref s)\<rparr>)"

section \<open>LogHandler\<close>

definition LogHandler_GetLevel :: "LogHandler \<Rightarrow> LogLevel" where
  "LogHandler_GetLevel h = LogHandler.level h"

definition LogHandler_SetLevel :: "LogLevel \<Rightarrow> LogHandler \<Rightarrow> LogHandler" where
  "LogHandler_SetLevel lvl h = h\<lparr>LogHandler.level := lvl\<rparr>"

definition LogHandler_GetFormatter :: "LogHandler \<Rightarrow> Formatter option" where
  "LogHandler_GetFormatter h = formatter h"

definition LogHandler_SetFormatter :: "Formatter option \<Rightarrow> LogHandler \<Rightarrow> LogHandler" where
  "LogHandler_SetFormatter f h = h\<lparr>formatter := f\<rparr>"

definition zero_LogHandler :: LogHandler where
  "zero_LogHandler = \<lparr>LogHandler.level = 0, formatter = None, logger = None\<rparr>"

text \<open>
  The object that \<^verbatim>\<open>NewLogHandler\<close> builds: the zero LogHandler, then
  \<^verbatim>\<open>SetLevel(config.level)\<close> and
  \<^verbatim>\<open>SetFormatter(NewFormatter(config.format, config.datefmt))\<close>. Its writer stays nil.
\<close>

definition NewLogHandler_value :: "state \<Rightarrow> LogHandler" where
  "NewLogHandler_value s =
     LogHandler_SetFormatter (Some (NewFormatter [format (config s), datefmt (config s)]))
       (LogHandler_SetLevel (Config.level (config s)) zero_LogHandler)"

definition NewLogHandler :: "state \<Rightarrow> ref \<times> state" where
  "NewLogHandler s = new_handler (LogHandler_obj (NewLogHandler_value s)) s"

text \<open>
  \<^verbatim>\<open>Formatter.Format\<close> called through a \<^verbatim>\<open>*Formatter\<close>: it reads the clock first;
  through a nil pointer the read of \<^verbatim>\<open>f.fmt\<close> panics.
\<close>

definition Formatter_Format :: "env \<Rightarrow> Formatter option \<Rightarrow> LogRecord \<Rightarrow> state \<Rightarrow> string result" where
  "Formatter_Format E f logRecord s =
     (let now = clock s; s1 = s\<lparr>clock := Suc (clock s)\<rparr>
      in case f of
           None \<Rightarrow> Inl (Panic, s1)
         | Some f' \<Rightarrow> Inr (Format E now f' logRecord, s1))"

definition LogHandler_Format :: "env \<Rightarrow> LogHandler \<Rightarrow> LogRecord \<Rightarrow> state \<Rightarrow> string result" where
  "LogHandler_Format E h logRecord s = Formatter_Format E (formatter h) logRecord s"

text \<open>
  \<^verbatim>\<open>fmt.Fprintln(h.logger, h.Format(logRecord))\<close>: the line is formatted first, then
  written with a line feed in one \<^verbatim>\<open>Write\<close>, whose result is dropped. With a nil
  writer the call of \<^verbatim>\<open>Write\<close> panics.
\<close>

definition LogHandler_Emit :: "env \<Rightarrow> LogHandler \<Rightarrow> LogRecord \<Rightarrow> state \<Rightarrow> unit result" where
  "LogHandler_Emit E h logRecord s =
     (case LogHandler_Format E h logRecord s of
        Inl a \<Rightarrow> Inl a
      | Inr (line, s1) \<Rightarrow>
          (case logger h of
             None \<Rightarrow> Inl (Panic, s1)
           | Some w \<Rightarrow> Inr ((), s1\<lparr>trace := trace s1 @ [Write w (line @ [CHR 0x0A])]\<rparr>)))"

definition LogHandler_Handle :: "env \<Rightarrow> LogHandler \<Rightarrow> LogRecord \<Rightarrow> state \<Rightarrow> unit result" where
  "LogHandler_Handle E h logRecord s = LogHandler_Emit E h logRecord s"

section \<open>StreamHandler and FileHandler\<close>

text \<open>
  \<^verbatim>\<open>NewStreamHandler(stream ...io.Writer)\<close>: the LogHandler made by
  \<^verbatim>\<open>NewLogHandler\<close> is copied into the new StreamHandler, whose writer is the first
  argument (which may be nil) or standard error.
\<close>

definition NewStreamHandler_value :: "writer option list \<Rightarrow> state \<Rightarrow> LogHandler" where
  "NewStreamHandler_value strm s =
     (let handlerStream = (if length strm > 0 then strm ! 0 else Some Stderr)
      in (NewLogHandler_value s)\<lparr>logger := handlerStream\<rparr>)"

definition NewStreamHandler :: "writer option list \<Rightarrow> state \<Rightarrow> ref \<times> state" where
  "NewStreamHandler strm s =
     (let (logHandler, s1) = NewLogHandler s
      in new_handler (StreamHandler_obj (NewStreamHandler_value strm s)) s1)"

text \<open>
  \<^verbatim>\<open>NewFileHandler(filename, mode)\<close>: the error of \<^verbatim>\<open>os.OpenFile\<close> is dropped, and
  the file it returns becomes the writer of the embedded StreamHandler.
\<close>

definition NewFileHandler :: "env \<Rightarrow> string \<Rightarrow> string \<Rightarrow> state \<Rightarrow> ref \<times> state" where
  "NewFileHandler E fname mode s =
     (let logfile = OpenFile E fname;
          s0 = s\<lparr>trace := trace s @ [Open fname]\<rparr>;
          (streamHandler, s1) = NewStreamHandler [Some logfile] s0
      in new_handler (FileHandler_obj (NewStreamHandler_value [Some logfile] s0) fname mode) s1)"

section \<open>ServiceHandler\<close>

definition NewServiceHandler :: "Service \<Rightarrow> state \<Rightarrow> ref \<times> state" where
  "NewServiceHandler service s =
     (let (logHandler, s1) = NewLogHandler s
      in new_handler (ServiceHandler_obj (NewLogHandler_value s) service) s1)"

text \<open>
  \<^verbatim>\<open>ServiceHandler.Emit\<close>: the message is formatted by the embedded LogHandler, then
  passed to one operation of the package variable \<^verbatim>\<open>logger\<close>, a
  \<^verbatim>\<open>service.Logger\<close>; while that variable is nil the call panics.
\<close>

definition ServiceHandler_Emit :: "env \<Rightarrow> LogHandler \<Rightarrow> LogRecord \<Rightarrow> state \<Rightarrow> unit result" where
  "ServiceHandler_Emit E h logRecord s =
     (case LogHandler_Format E h logRecord s of
        Inl a \<Rightarrow> Inl a
      | Inr (m, s1) \<Rightarrow>
          (case servicehandler_logger s1 of
             None \<Rightarrow> Inl (Panic, s1)
           | Some lg \<Rightarrow>
               Inr ((), s1\<lparr>trace := trace s1 @
                  [if LogRecord_GetLevel logRecord = WARNING then Logger_Warning lg m
                   else if LogRecord_GetLevel logRecord = ERROR then Logger_Error lg m
                   else Logger_Info lg m]\<rparr>)))"

definition ServiceHandler_Handle :: "env \<Rightarrow> LogHandler \<Rightarrow> LogRecord \<Rightarrow> state \<Rightarrow> unit result" where
  "ServiceHandler_Handle E h logRecord s = ServiceHandler_Emit E h logRecord s"

section \<open>The interface ILogHandler\<close>

text \<open>
  A method called on an \<^verbatim>\<open>ILogHandler\<close> value runs the method of the dynamic type.
  The types that embed a LogHandler inherit its methods; ServiceHandler declares
  \<^verbatim>\<open>Handle\<close> and \<^verbatim>\<open>Emit\<close> of its own.
\<close>

definition ILogHandler_GetLevel :: "ref \<Rightarrow> state \<Rightarrow> LogLevel result" where
  "ILogHandler_GetLevel h s =
     (case handler_heap s h of
        None \<Rightarrow> Inl (Panic, s)
      | Some obj \<Rightarrow> Inr (LogHandler_GetLevel (embedded obj), s))"

definition ILogHandler_SetLevel :: "ref \<Rightarrow> LogLevel \<Rightarrow> state \<Rightarrow> unit result" where
  "ILogHandler_SetLevel h lvl s =
     (case handler_heap s h of
        None \<Rightarrow> Inl (Panic, s)
      | Some obj \<Rightarrow>
          Inr ((), s\<lparr>handler_heap :=
                       (handler_heap s)(h \<mapsto> map_embedded (LogHandler_SetLevel lvl) obj)\<rparr>))"

definition ILogHandler_GetFormatter :: "ref \<Rightarrow> state \<Rightarrow> Formatter option result" where
  "ILogHandler_GetFormatter h s =
     (case handler_heap s h of
        None \<Rightarrow> Inl (Panic, s)
      | Some obj \<Rightarrow> Inr (LogHandler_GetFormatter (embedded obj), s))"

definition ILogHandler_SetFormatter :: "ref \<Rightarrow> Formatter option \<Rightarrow> state \<Rightarrow> unit result" where
  "ILogHandler_SetFormatter h f s =
     (case handler_heap s h of
        None \<Rightarrow> Inl (Panic, s)
      | Some obj \<Rightarrow>
          Inr ((), s\<lparr>handler_heap :=
                       (handler_heap s)(h \<mapsto> map_embedded (LogHandler_SetFormatter f) obj)\<rparr>))"

definition ILogHandler_Format :: "env \<Rightarrow> ref \<Rightarrow> LogRecord \<Rightarrow> state \<Rightarrow> string result" where
  "ILogHandler_Format E h logRecord s =
     (case handler_heap s h of
        None \<Rightarrow> Inl (Panic, s)
      | Some obj \<Rightarrow> LogHandler_Format E (embedded obj) logRecord s)"

definition ILogHandler_Emit :: "env \<Rightarrow> ref \<Rightarrow> LogRecord \<Rightarrow> state \<Rightarrow> unit result" where
  "ILogHandler_Emit E h logRecord s =
     (case handler_heap s h of
        None \<Rightarrow> Inl (Panic, s)
      | Some (ServiceHandler_obj b sv) \<Rightarrow> ServiceHandler_Emit E b logRecord s
      | Some obj \<Rightarrow> LogHandler_Emit E (embedded obj) logRecord s)"

definition ILogHandler_Handle :: "env \<Rightarrow> ref \<Rightarrow> LogRecord \<Rightarrow> state \<Rightarrow> unit result" where
  "ILogHandler_Handle E h logRecord s =
     (case handler_heap s h of
        None \<Rightarrow> Inl (Panic, s)
      | Some (ServiceHandler_obj b sv) \<Rightarrow> ServiceHandler_Handle E b logRecord s
      | Some obj \<Rightarrow> LogHandler_Handle E (embedded obj) logRecord s)"

section \<open>Logger\<close>

definition NewLogger :: "string \<Rightarrow> state \<Rightarrow> ref \<times> state" where
  "NewLogger nm s = new_logger \<lparr>Logger.level = 0, name = nm, handlers = []\<rparr> s"

definition Logger_GetName :: "ref \<Rightarrow> state \<Rightarrow> string result" where
  "Logger_GetName l s =
     (case logger_heap s l of
        None \<Rightarrow> Inl (Panic, s)
      | Some lg \<Rightarrow> Inr (Logger.name lg, s))"

definition Logger_SetLevel :: "ref \<Rightarrow> LogLevel \<Rightarrow> state \<Rightarrow> unit result" where
  "Logger_SetLevel l lvl s =
     (case logger_heap s l of
        None \<Rightarrow> Inl (Panic, s)
      | Some lg \<Rightarrow>
          Inr ((), s\<lparr>logger_heap := (logger_heap s)(l \<mapsto> lg\<lparr>Logger.level := lvl\<rparr>)\<rparr>))"

definition AddHandler :: "ref \<Rightarrow> ref \<Rightarrow> state \<Rightarrow> unit result" where
  "AddHandler l h s =
     (case logger_heap s l of
        None \<Rightarrow> Inl (Panic, s)
      | Some lg \<Rightarrow>
          Inr ((), s\<lparr>logger_heap := (logger_heap s)(l \<mapsto> lg\<lparr>handlers := handlers lg @ [h]\<rparr>)\<rparr>))"

text \<open>
  The loop of \<^verbatim>\<open>Log\<close> over \<^verbatim>\<open>l.handlers\<close>:
  \<^verbatim>\<open>if level >= handler.GetLevel() { handler.Handle(logRecord) }\<close>.
  A panic of \<^verbatim>\<open>GetLevel\<close> or \<^verbatim>\<open>Handle\<close> ends the loop and the call.
\<close>

fun Log_handlers :: "env \<Rightarrow> LogLevel \<Rightarrow> LogRecord \<Rightarrow> ref list \<Rightarrow> state \<Rightarrow> unit result" where
  "Log_handlers E lvl logRecord [] s = Inr ((), s)"
| "Log_handlers E lvl logRecord (h # hs) s =
     (case ILogHandler_GetLevel h s of
        Inl a \<Rightarrow> Inl a
      | Inr (threshold, s1) \<Rightarrow>
          if lvl \<ge> threshold then
            (case ILogHandler_Handle E h logRecord s1 of
               Inl a \<Rightarrow> Inl a
             | Inr (u, s2) \<Rightarrow> Log_handlers E lvl logRecord hs s2)
          else Log_handlers E lvl logRecord hs s1)"

text \<open>
  \<^verbatim>\<open>func (l *Logger) Log(level LogLevel, msg string, args ...interface{})\<close>. Through
  a nil logger the read of \<^verbatim>\<open>l.name\<close> panics. After the loop,
  \<^verbatim>\<open>if level == FATAL { os.Exit(1) }\<close>.
\<close>

definition Log :: "env \<Rightarrow> ref \<Rightarrow> LogLevel \<Rightarrow> string \<Rightarrow> dyn list \<Rightarrow> state \<Rightarrow> unit result" where
  "Log E l lvl m as s =
     (case logger_heap s l of
        None \<Rightarrow> Inl (Panic, s)
      | Some lg \<Rightarrow>
          (let logRecord = NewLogRecord lvl (Logger.name lg) m as
           in case Log_handlers E lvl logRecord (handlers lg) s of
                Inl a \<Rightarrow> Inl a
              | Inr (u, s1) \<Rightarrow> if lvl = FATAL then Inl (Exit 1, s1) else Inr ((), s1)))"

definition Debug :: "env \<Rightarrow> ref \<Rightarrow> string \<Rightarrow> dyn list \<Rightarrow> state \<Rightarrow> unit result" where
  "Debug E l m as s = Log E l DEBUG m as s"

definition Info :: "env \<Rightarrow> ref \<Rightarrow> string \<Rightarrow> dyn list \<Rightarrow> state \<Rightarrow> unit result" where
  "Info E l m as s = Log E l INFO m as s"

definition Warn :: "env \<Rightarrow> ref \<Rightarrow> string \<Rightarrow> dyn list \<Rightarrow> state \<Rightarrow> unit result" where
  "Warn E l m as s = Log E l WARNING m as s"

definition Error :: "env \<Rightarrow> ref \<Rightarrow> string \<Rightarrow> dyn list \<Rightarrow> state \<Rightarrow> unit result" where
  "Error E l m as s = Log E l ERROR m as s"

definition Critical :: "env \<Rightarrow> ref \<Rightarrow> string \<Rightarrow> dyn list \<Rightarrow> state \<Rightarrow> unit result" where
  "Critical E l m as s = Log E l CRITICAL m as s"

definition Fatal :: "env \<Rightarrow> ref \<Rightarrow> string \<Rightarrow> dyn list \<Rightarrow> state \<Rightarrow> unit result" where
  "Fatal E l m as s = Log E l FATAL m as s"

section \<open>The registry and the global configuration\<close>

text \<open>
  \<^verbatim>\<open>GetLogger(loggername ...string)\<close>, run under the lock of the registry: the calls
  of the model are sequential, so the lock has no effect here.
\<close>

definition GetLogger :: "string list \<Rightarrow> state \<Rightarrow> ref \<times> state" where
  "GetLogger loggername s =
     (let nm = (if length loggername = 1 then loggername ! 0 else ''root'')
      in case items s nm of
           Some lgr \<Rightarrow> (lgr, s)
         | None \<Rightarrow>
             (let (lgr, s1) = NewLogger nm s
              in (lgr, s1\<lparr>items := (items s1)(nm \<mapsto> lgr)\<rparr>)))"

text \<open>
  \<^verbatim>\<open>BasicConfig(conf map[string]interface{})\<close>. The entries of the map are visited
  in an order the run time chooses: the argument is the list of entries in that order.
  A type assertion \<^verbatim>\<open>value.(string)\<close> or \<^verbatim>\<open>value.(io.Writer)\<close> on a value of another
  dynamic type panics; the fields assigned before stay assigned.
\<close>

fun BasicConfig :: "env \<Rightarrow> (string \<times> dyn) list \<Rightarrow> state \<Rightarrow> unit result" where
  "BasicConfig E [] s = Inr ((), s)"
| "BasicConfig E ((k, val) # conf) s =
     (let key = ToLower E k in
      if key = ''filename'' then
        (case val of
           VString v \<Rightarrow> BasicConfig E conf (s\<lparr>config := (config s)\<lparr>filename := v\<rparr>\<rparr>)
         | _ \<Rightarrow> Inl (Panic, s))
      else if key = ''filemode'' then
        (case val of
           VString v \<Rightarrow> BasicConfig E conf (s\<lparr>config := (config s)\<lparr>filemode := v\<rparr>\<rparr>)
         | _ \<Rightarrow> Inl (Panic, s))
      else if key = ''format'' then
        (case val of
           VString v \<Rightarrow> BasicConfig E conf (s\<lparr>config := (config s)\<lparr>format := v\<rparr>\<rparr>)
         | _ \<Rightarrow> Inl (Panic, s))
      else if key = ''datefmt'' then
        (case val of
           VString v \<Rightarrow> BasicConfig E conf (s\<lparr>config := (config s)\<lparr>datefmt := v\<rparr>\<rparr>)
         | _ \<Rightarrow> Inl (Panic, s))
      else if key = ''stream'' then
        (case val of
           VWriter w \<Rightarrow> BasicConfig E conf (s\<lparr>config := (config s)\<lparr>stream := Some w\<rparr>\<rparr>)
         | _ \<Rightarrow> Inl (Panic, s))
      else BasicConfig E conf s)"

section \<open>Runs of the program\<close>

text \<open>
  The functions and methods through which a program changes the state, and the state
  a sequence of such calls leaves, whether a call returned or panicked.
\<close>

datatype call =
    Call_GetLogger "string list"
  | Call_BasicConfig "(string \<times> dyn) list"
  | Call_NewLogger string
  | Call_NewLogHandler
  | Call_NewStreamHandler "writer option list"
  | Call_NewFileHandler string string
  | Call_NewServiceHandler Service
  | Call_Logger_SetLevel ref LogLevel
  | Call_AddHandler ref ref
  | Call_Log ref LogLevel string "dyn list"
  | Call_SetLevel ref LogLevel
  | Call_SetFormatter ref "Formatter option"
  | Call_Format ref LogRecord
  | Call_Emit ref LogRecord
  | Call_Handle ref LogRecord

fun exec :: "env \<Rightarrow> call \<Rightarrow> state \<Rightarrow> state" where
  "exec E (Call_GetLogger loggername) s = snd (GetLogger loggername s)"
| "exec E (Call_BasicConfig conf) s = state_of (BasicConfig E conf s)"
| "exec E (Call_NewLogger nm) s = snd (NewLogger nm s)"
| "exec E Call_NewLogHandler s = snd (NewLogHandler s)"
| "exec E (Call_NewStreamHandler strm) s = snd (NewStreamHandler strm s)"
| "exec E (Call_NewFileHandler fname mode) s = snd (NewFileHandler E fname mode s)"
| "exec E (Call_NewServiceHandler service) s = snd (NewServiceHandler service s)"
| "exec E (Call_Logger_SetLevel l lvl) s = state_of (Logger_SetLevel l lvl s)"
| "exec E (Call_AddHandler l h) s = state_of (AddHandler l h s)"
| "exec E (Call_Log l lvl m as) s = state_of (Log E l lvl m as s)"
| "exec E (Call_SetLevel h lvl) s = state_of (ILogHandler_SetLevel h lvl s)"
| "exec E (Call_SetFormatter h f) s = state_of (ILogHandler_SetFormatter h f s)"
| "exec E (Call_Format h logRecord) s = state_of (ILogHandler_Format E h logRecord s)"
| "exec E (Call_Emit h logRecord) s = state_of (ILogHandler_Emit E h logRecord s)"
| "exec E (Call_Handle h logRecord) s = state_of (ILogHandler_Handle E h logRecord s)"

definition run :: "env \<Rightarrow> call list \<Rightarrow> state \<Rightarrow> state" where
  "run E calls s = fold (exec E) calls s"

section \<open>Notions used in the statements\<close>

subsection \<open>Delivery\<close>

text \<open>
  Handing a record to each handler of a list, in the order of the list, by calling its
  \<^verbatim>\<open>Handle\<close>; as in Go, a call that panics ends the sequence.
\<close>

fun deliver :: "env \<Rightarrow> LogRecord \<Rightarrow> ref list \<Rightarrow> state \<Rightarrow> unit result" where
  "deliver E logRecord [] s = Inr ((), s)"
| "deliver E logRecord (h # hs) s =
     (case ILogHandler_Handle E h logRecord s of
        Inl a \<Rightarrow> Inl a
      | Inr (u, s1) \<Rightarrow> deliver E logRecord hs s1)"

text \<open>The level \<open>lvl\<close> is at least the threshold of the handler \<open>h\<close>.\<close>

definition passes_gate :: "state \<Rightarrow> LogLevel \<Rightarrow> ref \<Rightarrow> bool" where
  "passes_gate s lvl h =
     (case handler_heap s h of
        None \<Rightarrow> False
      | Some obj \<Rightarrow> lvl \<ge> LogHandler.level (embedded obj))"

text \<open>A call changed nothing but the clock and the calls made.\<close>

definition output_only :: "state \<Rightarrow> state \<Rightarrow> bool" where
  "output_only s s' = (s' = s\<lparr>clock := clock s', trace := trace s'\<rparr>)"

definition map_state :: "(state \<Rightarrow> state) \<Rightarrow> 'a result \<Rightarrow> 'a result" where
  "map_state g res = (case res of Inl (a, s) \<Rightarrow> Inl (a, g s) | Inr (x, s) \<Rightarrow> Inr (x, g s))"

definition with_loggers :: "(ref \<Rightarrow> Logger option) \<Rightarrow> state \<Rightarrow> state" where
  "with_loggers H s = s\<lparr>logger_heap := H\<rparr>"

definition abort_of :: "'a result \<Rightarrow> abort option" where
  "abort_of res = (case res of Inl (a, s) \<Rightarrow> Some a | Inr (x, s) \<Rightarrow> None)"

subsection \<open>Substitution\<close>

text \<open>The message of a record as \<^verbatim>\<open>Format\<close> renders it.\<close>

definition rendered_message :: "env \<Rightarrow> LogRecord \<Rightarrow> string" where
  "rendered_message E logRecord =
     (if length (args logRecord) > 0 then Sprintf E (msg logRecord) (args logRecord)
      else msg logRecord)"

text \<open>
  Following the words of the specification, a substitution in a single pass that is not
  recursive: the template is read once from left to right; where a placeholder that was
  not substituted yet begins, its text is put out, and reading goes on behind the
  placeholder. Text that was put out is never read.
\<close>

function single_pass :: "(string \<times> string) list \<Rightarrow> string \<Rightarrow> string" where
  "single_pass ps [] = []"
| "single_pass ps (c # s) =
     (case find (\<lambda>p. prefix (fst p) (c # s)) ps of
        Some p \<Rightarrow> snd p @ single_pass (remove1 p ps) (drop (length (fst p)) (c # s))
      | None \<Rightarrow> c # single_pass ps s)"
  by pat_completeness auto
termination
  by (relation "measure (\<lambda>(ps, s). length ps + length s)")
     (auto simp add: find_Some_iff length_remove1 intro!: add_less_le_mono)

definition Format_single_pass :: "env \<Rightarrow> nat \<Rightarrow> Formatter \<Rightarrow> LogRecord \<Rightarrow> string" where
  "Format_single_pass E now f logRecord =
     single_pass
       [(''{levelname}'', LogLevel_String (LogRecord.level logRecord)),
        (''{message}'', rendered_message E logRecord),
        (''{asctime}'', Now_Format E now (dateFmt f))]
       (fmt f)"

text \<open>
  \<open>t\<close> is \<open>s\<close> with its leftmost occurrence of \<open>old\<close> replaced by \<open>new\<close>, or
  \<open>s\<close> itself when \<open>old\<close> does not occur in \<open>s\<close>.
\<close>

definition replaces_leftmost :: "string \<Rightarrow> string \<Rightarrow> string \<Rightarrow> string \<Rightarrow> bool" where
  "replaces_leftmost old new s t \<longleftrightarrow>
     (\<not> sublist old s \<and> t = s) \<or>
     (\<exists>pre post. s = pre @ old @ post
        \<and> (\<forall>pre' post'. s = pre' @ old @ post' \<longrightarrow> length pre \<le> length pre')
        \<and> t = pre @ new @ post)"

subsection \<open>Configuration and registry\<close>

text \<open>
  The value bound to a key of \<^verbatim>\<open>BasicConfig\<close> has the type its field needs: a string
  for the four text fields, a writer for \<^verbatim>\<open>stream\<close>, anything for another key.
\<close>

definition well_typed :: "string \<Rightarrow> dyn \<Rightarrow> bool" where
  "well_typed key val =
     (if key \<in> {''filename'', ''filemode'', ''format'', ''datefmt''}
      then (case val of VString v \<Rightarrow> True | _ \<Rightarrow> False)
      else if key = ''stream'' then (case val of VWriter w \<Rightarrow> True | _ \<Rightarrow> False)
      else True)"

text \<open>A handler carries the level and the two templates of a configuration.\<close>

definition snapshot_of :: "Config \<Rightarrow> handler \<Rightarrow> bool" where
  "snapshot_of c obj \<longleftrightarrow>
     LogHandler.level (embedded obj) = Config.level c
     \<and> formatter (embedded obj) = Some \<lparr>fmt = format c, dateFmt = datefmt c\<rparr>"

definition constructed :: "ref \<times> state \<Rightarrow> handler option" where
  "constructed p = handler_heap (snd p) (fst p)"

text \<open>
  Every name of the registry is bound to an allocated logger that carries this name.
\<close>

definition registry_ok :: "state \<Rightarrow> bool" where
  "registry_ok s \<longleftrightarrow>
     (\<forall>x r. items s x = Some r \<longrightarrow>
        r < next_ref s \<and> (\<exists>lg. logger_heap s r = Some lg \<and> Logger.name lg = x))"

text \<open>A call left the registry, the loggers and the service logger as they were.\<close>

definition keeps_registry :: "state \<Rightarrow> state \<Rightarrow> bool" where
  "keeps_registry s s' \<longleftrightarrow>
     items s' = items s \<and> logger_heap s' = logger_heap s \<and> next_ref s \<le> next_ref s'
     \<and> servicehandler_logger s' = servicehandler_logger s"

subsection \<open>An example\<close>

definition ascii_lower :: "string \<Rightarrow> string" where
  "ascii_lower str =
     map (\<lambda>c. case map_of (zip ''ABCDEFGHIJKLMNOPQRSTUVWXYZ'' ''abcdefghijklmnopqrstuvwxyz'') c of
                 None \<Rightarrow> c | Some d \<Rightarrow> d) str"

definition example_env :: env where
  "example_env =
     with_Sprintf_fragment (\<lambda>f operands. f)
       \<lparr>Sprintf = (\<lambda>f operands. f), Now_Format = (\<lambda>n layout. ''12:00''),
        ToLower = ascii_lower, OpenFile = (\<lambda>path. Writer 1)\<rparr>"

text \<open>
  A logger named app with one StreamHandler on writer 7 whose level was set to WARNING:
  the logger is object 0, the handler object 2 (object 1 is the LogHandler that
  \<^verbatim>\<open>NewStreamHandler\<close> copied).
\<close>

definition example_state :: state where
  "example_state =
     run example_env
       [Call_GetLogger [''app''], Call_NewStreamHandler [Some (Writer 7)],
        Call_SetLevel 2 WARNING, Call_AddHandler 0 2] initial_state"

text \<open>
  The same logger with two handlers at the level INFO of the configuration: object 1, a
  LogHandler made by \<^verbatim>\<open>NewLogHandler\<close>, whose writer is nil, and behind it object 3, a
  StreamHandler on writer 7.
\<close>

definition panicking_state :: state where
  "panicking_state =
     run example_env
       [Call_GetLogger [''app''], Call_NewLogHandler, Call_NewStreamHandler [Some (Writer 7)],
        Call_AddHandler 0 1, Call_AddHandler 0 3] initial_state"

section \<open>The scenario of the specification\<close>

text \<open>
  C5. The formatter \<^verbatim>\<open>NewFormatter("{levelname}: {message}", "2006-01-02")\<close> renders
  the record \<^verbatim>\<open>NewLogRecord(ERROR, "x", "failed: %s", "disk full")\<close> as
  \<^verbatim>\<open>ERROR: failed: disk full\<close>, at every reading of the clock and whatever the
  library does outside the modelled fragment of \<^verbatim>\<open>Sprintf\<close>.
\<close>

theorem Format_scenario:
  "Format (with_Sprintf_fragment other E) now
     (NewFormatter [''{levelname}: {message}'', ''2006-01-02''])
     (NewLogRecord ERROR ''x'' ''failed: %s'' [VString ''disk full''])
   = ''ERROR: failed: disk full''"
  by (simp add: Format_def with_Sprintf_fragment_def NewFormatter_def NewLogRecord_def
      LogLevel_String_def)

section \<open>What a delivery changes\<close>

lemma output_only_heap: "output_only s s' \<Longrightarrow> handler_heap s' = handler_heap s"
  unfolding output_only_def
  by (metis state.select_convs(4) state.surjective state.update_convs(7) state.update_convs(8))

lemma Formatter_Format_output: "output_only s (state_of (Formatter_Format E f r s))"
  by (cases f) (simp_all add: Formatter_Format_def state_of_def output_only_def Let_def)

lemma LogHandler_Emit_output: "output_only s (state_of (LogHandler_Emit E h r s))"
  by (cases "formatter h"; cases "logger h")
     (simp_all add: LogHandler_Emit_def LogHandler_Format_def Formatter_Format_def
        state_of_def output_only_def Let_def)

lemma ServiceHandler_Emit_output: "output_only s (state_of (ServiceHandler_Emit E h r s))"
  by (cases "formatter h"; cases "servicehandler_logger s")
     (simp_all add: ServiceHandler_Emit_def LogHandler_Format_def Formatter_Format_def
        state_of_def output_only_def Let_def)

lemma ILogHandler_Handle_output: "output_only s (state_of (ILogHandler_Handle E h r s))"
proof (cases "handler_heap s h")
  case None
  then show ?thesis by (simp add: ILogHandler_Handle_def state_of_def output_only_def)
next
  case (Some obj)
  then show ?thesis
    by (cases obj)
       (simp_all add: ILogHandler_Handle_def LogHandler_Handle_def ServiceHandler_Handle_def
          LogHandler_Emit_output ServiceHandler_Emit_output)
qed

text \<open>A handler never ends the process: when its call does not return, it panicked.\<close>

lemma LogHandler_Emit_abort: "LogHandler_Emit E h r s = Inl (a, s') \<Longrightarrow> a = Panic"
  by (cases "formatter h"; cases "logger h")
     (simp_all add: LogHandler_Emit_def LogHandler_Format_def Formatter_Format_def Let_def)

lemma ServiceHandler_Emit_abort: "ServiceHandler_Emit E h r s = Inl (a, s') \<Longrightarrow> a = Panic"
  by (cases "formatter h"; cases "servicehandler_logger s")
     (simp_all add: ServiceHandler_Emit_def LogHandler_Format_def Formatter_Format_def Let_def)

lemma ILogHandler_Handle_abort: "ILogHandler_Handle E h r s = Inl (a, s') \<Longrightarrow> a = Panic"
proof (cases "handler_heap s h")
  case None
  then show "ILogHandler_Handle E h r s = Inl (a, s') \<Longrightarrow> a = Panic"
    by (simp add: ILogHandler_Handle_def)
next
  case (Some obj)
  then show "ILogHandler_Handle E h r s = Inl (a, s') \<Longrightarrow> a = Panic"
    by (cases obj)
       (auto simp add: ILogHandler_Handle_def LogHandler_Handle_def ServiceHandler_Handle_def
          dest: LogHandler_Emit_abort ServiceHandler_Emit_abort)
qed

lemma deliver_abort: "deliver E r hs s = Inl (a, s') \<Longrightarrow> a = Panic"
proof (induction hs arbitrary: s)
  case Nil
  then show ?case by simp
next
  case (Cons h hs)
  show ?case
  proof (cases "ILogHandler_Handle E h r s")
    case (Inl b)
    with Cons.prems have "ILogHandler_Handle E h r s = Inl (a, s')" by simp
    then show ?thesis by (rule ILogHandler_Handle_abort)
  next
    case (Inr p)
    with Cons.prems have "deliver E r hs (snd p) = Inl (a, s')" by (simp add: case_prod_beta)
    then show ?thesis by (rule Cons.IH)
  qed
qed

section \<open>The loop of Log\<close>

lemma passes_gate_cong: "handler_heap s' = handler_heap s \<Longrightarrow> passes_gate s' = passes_gate s"
  by (simp add: passes_gate_def fun_eq_iff)

text \<open>
  The loop calls \<^verbatim>\<open>Handle\<close> on the handlers whose threshold the level reaches, and
  on no other, in the order of the list.
\<close>

lemma Log_handlers_deliver:
  "\<forall>h\<in>set hs. handler_heap s h \<noteq> None \<Longrightarrow>
   Log_handlers E lvl r hs s = deliver E r (filter (passes_gate s lvl) hs) s"
proof (induction hs arbitrary: s)
  case Nil
  show ?case by simp
next
  case (Cons h hs)
  from Cons.prems obtain obj where obj: "handler_heap s h = Some obj" by auto
  have rest: "\<forall>h\<in>set hs. handler_heap s h \<noteq> None" using Cons.prems by simp
  have gate: "passes_gate s lvl h \<longleftrightarrow> lvl \<ge> LogHandler.level (embedded obj)"
    using obj by (simp add: passes_gate_def)
  have level: "ILogHandler_GetLevel h s = Inr (LogHandler.level (embedded obj), s)"
    using obj by (simp add: ILogHandler_GetLevel_def LogHandler_GetLevel_def)
  show ?case
  proof (cases "passes_gate s lvl h")
    case False
    with gate level rest show ?thesis
      by (simp add: Cons.IH)
  next
    case True
    show ?thesis
    proof (cases "ILogHandler_Handle E h r s")
      case (Inl a)
      with gate level True show ?thesis
        by simp
    next
      case (Inr p)
      obtain u s1 where p: "p = (u, s1)" by (cases p)
      have "output_only s s1"
        using ILogHandler_Handle_output [of s E h r] Inr p by (simp add: state_of_def)
      then have heap: "handler_heap s1 = handler_heap s" by (rule output_only_heap)
      then have "\<forall>h\<in>set hs. handler_heap s1 h \<noteq> None" using rest by simp
      then have "Log_handlers E lvl r hs s1 = deliver E r (filter (passes_gate s1 lvl) hs) s1"
        by (rule Cons.IH)
      with gate level True Inr p show ?thesis
        by (simp add: passes_gate_cong [OF heap])
    qed
  qed
qed

lemma Log_deliver:
  assumes "logger_heap s l = Some lg"
    and "\<forall>h\<in>set (handlers lg). handler_heap s h \<noteq> None"
  shows "Log E l lvl m as s =
         (case deliver E (NewLogRecord lvl (Logger.name lg) m as)
                 (filter (passes_gate s lvl) (handlers lg)) s of
            Inl a \<Rightarrow> Inl a
          | Inr (u, s1) \<Rightarrow> if lvl = FATAL then Inl (Exit 1, s1) else Inr ((), s1))"
proof -
  have "Log_handlers E lvl (NewLogRecord lvl (Logger.name lg) m as) (handlers lg) s =
        deliver E (NewLogRecord lvl (Logger.name lg) m as)
          (filter (passes_gate s lvl) (handlers lg)) s"
    using assms(2) by (rule Log_handlers_deliver)
  with assms(1) show ?thesis by (simp add: Log_def)
qed

text \<open>The example state, evaluated.\<close>

lemmas run_defs = run_def GetLogger_def NewLogger_def new_logger_def NewStreamHandler_def
  NewStreamHandler_value_def NewLogHandler_def NewLogHandler_value_def new_handler_def
  LogHandler_SetLevel_def LogHandler_SetFormatter_def zero_LogHandler_def NewFormatter_def
  ILogHandler_SetLevel_def AddHandler_def state_of_def initial_state_def Let_def

lemmas handle_defs = passes_gate_def ILogHandler_Handle_def LogHandler_Handle_def
  LogHandler_Emit_def LogHandler_Format_def Formatter_Format_def Format_def NewLogRecord_def
  LogLevel_String_def Let_def

lemma example_state_eq:
  "example_state =
     \<lparr>config = initial_config,
      items = (\<lambda>x. None)(''app'' \<mapsto> 0),
      logger_heap = (\<lambda>r. None)(0 \<mapsto> \<lparr>Logger.level = 0, name = ''app'', handlers = [2]\<rparr>),
      handler_heap = (\<lambda>r. None)
        (Suc 0 \<mapsto> LogHandler_obj \<lparr>LogHandler.level = INFO,
            formatter = Some \<lparr>fmt = ''{levelname}: {asctime} - {message}'',
                              dateFmt = ''2006-01-02 15:04:05''\<rparr>,
            logger = None\<rparr>,
         2 \<mapsto> StreamHandler_obj \<lparr>LogHandler.level = WARNING,
            formatter = Some \<lparr>fmt = ''{levelname}: {asctime} - {message}'',
                              dateFmt = ''2006-01-02 15:04:05''\<rparr>,
            logger = Some (Writer 7)\<rparr>),
      next_ref = 3, servicehandler_logger = None, clock = 0, trace = []\<rparr>"
  unfolding example_state_def
  by (simp add: run_defs initial_config_def numeral_2_eq_2 numeral_3_eq_3 fun_upd_twist)

lemma panicking_state_eq:
  "panicking_state =
     \<lparr>config = initial_config,
      items = (\<lambda>x. None)(''app'' \<mapsto> 0),
      logger_heap = (\<lambda>r. None)(0 \<mapsto> \<lparr>Logger.level = 0, name = ''app'', handlers = [1, 3]\<rparr>),
      handler_heap = (\<lambda>r. None)
        (Suc 0 \<mapsto> LogHandler_obj \<lparr>LogHandler.level = INFO,
            formatter = Some \<lparr>fmt = ''{levelname}: {asctime} - {message}'',
                              dateFmt = ''2006-01-02 15:04:05''\<rparr>,
            logger = None\<rparr>,
         2 \<mapsto> LogHandler_obj \<lparr>LogHandler.level = INFO,
            formatter = Some \<lparr>fmt = ''{levelname}: {asctime} - {message}'',
                              dateFmt = ''2006-01-02 15:04:05''\<rparr>,
            logger = None\<rparr>,
         3 \<mapsto> StreamHandler_obj \<lparr>LogHandler.level = INFO,
            formatter = Some \<lparr>fmt = ''{levelname}: {asctime} - {message}'',
                              dateFmt = ''2006-01-02 15:04:05''\<rparr>,
            logger = Some (Writer 7)\<rparr>),
      next_ref = 4, servicehandler_logger = None, clock = 0, trace = []\<rparr>"
  unfolding panicking_state_def
  by (simp add: run_defs initial_config_def numeral_2_eq_2 numeral_3_eq_3 eval_nat_numeral
      fun_upd_twist)

text \<open>
  C1, as the code has it. On a logger whose attached handlers are objects,
  \<^verbatim>\<open>Log(L, msg, args)\<close> calls \<^verbatim>\<open>Handle\<close> on the handlers whose threshold T satisfies
  L \<ge> T, and on no other, one after the other in the order of \<^verbatim>\<open>l.handlers\<close>, until
  one of these calls panics: the panic ends \<^verbatim>\<open>Log\<close> and is its result, and the handlers
  behind get nothing. When no call panics, every handler with L \<ge> T was handed the
  record, and the exit for FATAL follows. \<^verbatim>\<open>AddHandler\<close> puts a handler behind those
  added before, so that the order of the list is the order of adding.
\<close>

theorem Log_dispatch:
  assumes "logger_heap s l = Some lg"
    and "\<forall>h\<in>set (handlers lg). handler_heap s h \<noteq> None"
  shows "Log E l lvl m as s =
           (case deliver E (NewLogRecord lvl (Logger.name lg) m as)
                   (filter (passes_gate s lvl) (handlers lg)) s of
              Inl a \<Rightarrow> Inl a
            | Inr (u, s1) \<Rightarrow> if lvl = FATAL then Inl (Exit 1, s1) else Inr ((), s1))
         \<and> AddHandler l h s =
             Inr ((), s\<lparr>logger_heap :=
                          (logger_heap s)(l \<mapsto> lg\<lparr>handlers := handlers lg @ [h]\<rparr>)\<rparr>)"
  using assms by (simp add: Log_deliver AddHandler_def)

text \<open>
  The scenario of the specification: the handler at WARNING gets nothing from
  \<^verbatim>\<open>Info("hello")\<close> and one line from \<^verbatim>\<open>Error("boom")\<close>.
\<close>

theorem Log_dispatch_witness:
  "logger_heap example_state 0 = Some \<lparr>Logger.level = 0, name = ''app'', handlers = [2]\<rparr>
   \<and> handler_heap example_state 2 \<noteq> None
   \<and> Log example_env 0 INFO ''hello'' [] example_state = Inr ((), example_state)
   \<and> Log example_env 0 ERROR ''boom'' [] example_state =
       Inr ((), example_state\<lparr>clock := 1,
                  trace := [Write (Writer 7) (''ERROR: 12:00 - boom'' @ [CHR 0x0A])]\<rparr>)"
proof -
  let ?lg = "\<lparr>Logger.level = 0, name = ''app'', handlers = [2]\<rparr>"
  have l: "logger_heap example_state 0 = Some ?lg"
    by (simp add: example_state_eq)
  have h: "\<forall>h\<in>set (handlers ?lg). handler_heap example_state h \<noteq> None"
    by (simp add: example_state_eq)
  have info: "Log example_env 0 INFO ''hello'' [] example_state = Inr ((), example_state)"
    using Log_dispatch [OF l h, of example_env INFO "''hello''" "[]" 0]
    by (simp add: example_state_eq handle_defs)
  have err: "Log example_env 0 ERROR ''boom'' [] example_state =
       Inr ((), example_state\<lparr>clock := 1,
                  trace := [Write (Writer 7) (''ERROR: 12:00 - boom'' @ [CHR 0x0A])]\<rparr>)"
    using Log_dispatch [OF l h, of example_env ERROR "''boom''" "[]" 0]
    by (simp add: example_state_eq handle_defs example_env_def with_Sprintf_fragment_def
        initial_config_def)
  from l h info err show ?thesis by simp
qed

text \<open>
  C1, as it is stated, fails. In the example with two handlers both pass the gate at
  ERROR, and handing the record to the second one alone writes its line; but in
  \<^verbatim>\<open>Log\<close> the first one, whose writer is nil, panics in \<^verbatim>\<open>Emit\<close>, so \<^verbatim>\<open>Log\<close>
  panics after one reading of the clock and the second handler is never called: nothing
  was written.
\<close>

theorem Log_stops_at_panic:
  "logger_heap panicking_state 0 = Some \<lparr>Logger.level = 0, name = ''app'', handlers = [1, 3]\<rparr>
   \<and> handler_heap panicking_state 1 \<noteq> None \<and> handler_heap panicking_state 3 \<noteq> None
   \<and> passes_gate panicking_state ERROR 1 \<and> passes_gate panicking_state ERROR 3
   \<and> ILogHandler_Handle example_env 3 (NewLogRecord ERROR ''app'' ''boom'' []) panicking_state =
       Inr ((), panicking_state\<lparr>clock := 1,
                  trace := [Write (Writer 7) (''ERROR: 12:00 - boom'' @ [CHR 0x0A])]\<rparr>)
   \<and> Log example_env 0 ERROR ''boom'' [] panicking_state =
       Inl (Panic, panicking_state\<lparr>clock := 1\<rparr>)
   \<and> trace (panicking_state\<lparr>clock := 1\<rparr>) = []"
  by (simp add: panicking_state_eq Log_def ILogHandler_GetLevel_def LogHandler_GetLevel_def
      handle_defs example_env_def with_Sprintf_fragment_def initial_config_def)

section \<open>The end of Log\<close>

lemma Log_handlers_abort: "Log_handlers E lvl r hs s = Inl (a, s') \<Longrightarrow> a = Panic"
proof (induction hs arbitrary: s)
  case Nil
  then show ?case by simp
next
  case (Cons h hs)
  show ?case
  proof (cases "handler_heap s h")
    case None
    with Cons.prems show ?thesis by (simp add: ILogHandler_GetLevel_def)
  next
    case (Some obj)
    have level: "ILogHandler_GetLevel h s = Inr (LogHandler.level (embedded obj), s)"
      using Some by (simp add: ILogHandler_GetLevel_def LogHandler_GetLevel_def)
    show ?thesis
    proof (cases "lvl \<ge> LogHandler.level (embedded obj)")
      case False
      with Cons.prems level have "Log_handlers E lvl r hs s = Inl (a, s')" by simp
      then show ?thesis by (rule Cons.IH)
    next
      case True
      show ?thesis
      proof (cases "ILogHandler_Handle E h r s")
        case (Inl b)
        with Cons.prems level True have "ILogHandler_Handle E h r s = Inl (a, s')" by simp
        then show ?thesis by (rule ILogHandler_Handle_abort)
      next
        case (Inr p)
        with Cons.prems level True have "Log_handlers E lvl r hs (snd p) = Inl (a, s')"
          by (simp add: case_prod_beta)
        then show ?thesis by (rule Cons.IH)
      qed
    qed
  qed
qed

lemma Log_exit: "Log E l lvl m as s = Inl (Exit n, s') \<Longrightarrow> lvl = FATAL \<and> n = 1"
proof (cases "logger_heap s l")
  case None
  then show "Log E l lvl m as s = Inl (Exit n, s') \<Longrightarrow> lvl = FATAL \<and> n = 1"
    by (simp add: Log_def)
next
  case (Some lg)
  assume a: "Log E l lvl m as s = Inl (Exit n, s')"
  show "lvl = FATAL \<and> n = 1"
  proof (cases "Log_handlers E lvl (NewLogRecord lvl (Logger.name lg) m as) (handlers lg) s")
    case (Inl p)
    with a Some have "Log_handlers E lvl (NewLogRecord lvl (Logger.name lg) m as) (handlers lg) s
        = Inl (Exit n, s')"
      by (simp add: Log_def)
    then have "Exit n = Panic" by (rule Log_handlers_abort)
    then show ?thesis by simp
  next
    case (Inr p)
    with a Some show ?thesis
      by (simp add: Log_def case_prod_beta split: if_splits)
  qed
qed

text \<open>
  C2, as the code has it. On a logger whose attached handlers are objects, \<^verbatim>\<open>Fatal\<close>
  is \<^verbatim>\<open>Log\<close> at FATAL, and \<^verbatim>\<open>Log\<close> at FATAL hands the record to the handlers that
  pass their gate, in order; when none of these calls panics, it then ends the process
  with \<^verbatim>\<open>os.Exit(1)\<close>, in the state the deliveries left; when one panics, the panic is
  the result, the handlers behind are not served and the exit is not reached. At any
  other level \<^verbatim>\<open>Log\<close> never calls \<^verbatim>\<open>os.Exit\<close>.
\<close>

theorem Log_FATAL_exits_after_delivery:
  assumes "logger_heap s l = Some lg"
    and "\<forall>h\<in>set (handlers lg). handler_heap s h \<noteq> None"
  shows "Fatal E l m as s = Log E l FATAL m as s
         \<and> Log E l FATAL m as s =
             (case deliver E (NewLogRecord FATAL (Logger.name lg) m as)
                     (filter (passes_gate s FATAL) (handlers lg)) s of
                Inl (a, s1) \<Rightarrow> Inl (Panic, s1)
              | Inr (u, s1) \<Rightarrow> Inl (Exit 1, s1))
         \<and> (lvl \<noteq> FATAL \<longrightarrow> (\<forall>n s'. Log E l lvl m as s \<noteq> Inl (Exit n, s')))"
proof -
  let ?d = "deliver E (NewLogRecord FATAL (Logger.name lg) m as)
              (filter (passes_gate s FATAL) (handlers lg)) s"
  have fatal: "Log E l FATAL m as s =
      (case ?d of Inl (a, s1) \<Rightarrow> Inl (Panic, s1) | Inr (u, s1) \<Rightarrow> Inl (Exit 1, s1))"
  proof (cases ?d)
    case (Inl p)
    obtain a s1 where p: "p = (a, s1)" by (cases p)
    with Inl have "a = Panic" using deliver_abort by blast
    with Inl p show ?thesis using Log_deliver [OF assms, of E FATAL m as] by simp
  next
    case (Inr p)
    then show ?thesis using Log_deliver [OF assms, of E FATAL m as] by (simp add: case_prod_beta)
  qed
  have other: "lvl \<noteq> FATAL \<longrightarrow> (\<forall>n s'. Log E l lvl m as s \<noteq> Inl (Exit n, s'))"
    using Log_exit by blast
  from fatal other show ?thesis by (simp add: Fatal_def)
qed

theorem Log_FATAL_exits_after_delivery_witness:
  "Fatal example_env 0 ''stop'' [] example_state =
     Inl (Exit 1, example_state\<lparr>clock := 1,
            trace := [Write (Writer 7) (''FATAL: 12:00 - stop'' @ [CHR 0x0A])]\<rparr>)
   \<and> (\<forall>n s'. Log example_env 0 CRITICAL ''stop'' [] example_state \<noteq> Inl (Exit n, s'))"
proof -
  let ?lg = "\<lparr>Logger.level = 0, name = ''app'', handlers = [2]\<rparr>"
  have l: "logger_heap example_state 0 = Some ?lg"
    by (simp add: example_state_eq)
  have h: "\<forall>h\<in>set (handlers ?lg). handler_heap example_state h \<noteq> None"
    by (simp add: example_state_eq)
  note inst = Log_FATAL_exits_after_delivery [OF l h, of example_env "''stop''" "[]" CRITICAL]
  have "Fatal example_env 0 ''stop'' [] example_state =
     Inl (Exit 1, example_state\<lparr>clock := 1,
            trace := [Write (Writer 7) (''FATAL: 12:00 - stop'' @ [CHR 0x0A])]\<rparr>)"
    using inst
    by (simp add: example_state_eq handle_defs example_env_def with_Sprintf_fragment_def
        initial_config_def)
  moreover have "\<forall>n s'. Log example_env 0 CRITICAL ''stop'' [] example_state \<noteq> Inl (Exit n, s')"
    using inst by simp
  ultimately show ?thesis by simp
qed

text \<open>
  C2, as it is stated, fails. In the example with two handlers both pass the gate at
  FATAL, but the first one panics in \<^verbatim>\<open>Emit\<close>: \<^verbatim>\<open>Fatal\<close> ends in this panic, not
  in \<^verbatim>\<open>os.Exit\<close>, and the second handler was not served.
\<close>

theorem Fatal_panics_without_exit:
  "logger_heap panicking_state 0 = Some \<lparr>Logger.level = 0, name = ''app'', handlers = [1, 3]\<rparr>
   \<and> handler_heap panicking_state 1 \<noteq> None \<and> handler_heap panicking_state 3 \<noteq> None
   \<and> passes_gate panicking_state FATAL 1 \<and> passes_gate panicking_state FATAL 3
   \<and> Fatal example_env 0 ''stop'' [] panicking_state =
       Inl (Panic, panicking_state\<lparr>clock := 1\<rparr>)
   \<and> trace (panicking_state\<lparr>clock := 1\<rparr>) = []"
  by (simp add: panicking_state_eq Fatal_def Log_def ILogHandler_GetLevel_def LogHandler_GetLevel_def
      handle_defs example_env_def with_Sprintf_fragment_def initial_config_def)

section \<open>The level of the Logger\<close>

text \<open>No call of a handler reads the loggers: replacing them commutes with the call.\<close>

lemma ILogHandler_Handle_loggers:
  "ILogHandler_Handle E h r (with_loggers H s) = map_state (with_loggers H) (ILogHandler_Handle E h r s)"
proof (cases "handler_heap s h")
  case None
  then show ?thesis by (simp add: ILogHandler_Handle_def with_loggers_def map_state_def)
next
  case (Some obj)
  then show ?thesis
    by (cases obj)
       (simp_all add: ILogHandler_Handle_def LogHandler_Handle_def ServiceHandler_Handle_def
          LogHandler_Emit_def ServiceHandler_Emit_def LogHandler_Format_def Formatter_Format_def
          with_loggers_def map_state_def Let_def split: option.split)
qed

lemma Log_handlers_loggers:
  "Log_handlers E lvl r hs (with_loggers H s) = map_state (with_loggers H) (Log_handlers E lvl r hs s)"
proof (induction hs arbitrary: s)
  case Nil
  show ?case by (simp add: map_state_def)
next
  case (Cons h hs)
  show ?case
  proof (cases "handler_heap s h")
    case None
    then show ?thesis
      by (simp add: ILogHandler_GetLevel_def with_loggers_def map_state_def)
  next
    case (Some obj)
    have g: "ILogHandler_GetLevel h s = Inr (LogHandler.level (embedded obj), s)"
      using Some by (simp add: ILogHandler_GetLevel_def LogHandler_GetLevel_def)
    have g': "ILogHandler_GetLevel h (with_loggers H s)
                = Inr (LogHandler.level (embedded obj), with_loggers H s)"
      using Some by (simp add: ILogHandler_GetLevel_def LogHandler_GetLevel_def with_loggers_def)
    show ?thesis
    proof (cases "ILogHandler_Handle E h r s")
      case (Inl p)
      then show ?thesis
        by (simp add: g g' ILogHandler_Handle_loggers Cons.IH map_state_def case_prod_beta)
    next
      case (Inr p)
      then show ?thesis
        by (simp add: g g' ILogHandler_Handle_loggers Cons.IH map_state_def case_prod_beta)
    qed
  qed
qed

lemma Log_loggers:
  assumes "logger_heap s l = Some lg"
    and "H l = Some lg'" and "Logger.name lg' = Logger.name lg" and "handlers lg' = handlers lg"
  shows "Log E l lvl m as (with_loggers H s) = map_state (with_loggers H) (Log E l lvl m as s)"
proof -
  let ?r = "NewLogRecord lvl (Logger.name lg) m as"
  have H: "logger_heap (with_loggers H s) = H" by (simp add: with_loggers_def)
  have loop: "Log_handlers E lvl ?r (handlers lg) (with_loggers H s)
                = map_state (with_loggers H) (Log_handlers E lvl ?r (handlers lg) s)"
    by (rule Log_handlers_loggers)
  show ?thesis
  proof (cases "Log_handlers E lvl ?r (handlers lg) s")
    case (Inl p)
    with assms loop show ?thesis
      by (simp add: Log_def H map_state_def case_prod_beta)
  next
    case (Inr p)
    with assms loop show ?thesis
      by (simp add: Log_def H map_state_def case_prod_beta)
  qed
qed

lemma trace_map_state_with_loggers:
  "trace (state_of (map_state (with_loggers H) res)) = trace (state_of res)"
  by (cases res) (simp_all add: map_state_def state_of_def with_loggers_def case_prod_beta)

lemma abort_of_map_state: "abort_of (map_state g res) = abort_of res"
  by (cases res) (simp_all add: map_state_def abort_of_def case_prod_beta)

text \<open>
  C7. \<^verbatim>\<open>Log\<close> on a logger whose level was set by \<^verbatim>\<open>Logger.SetLevel\<close> to any value
  gives the result of \<^verbatim>\<open>Log\<close> on the logger as it was, in every component of the
  state but the loggers themselves: the same calls go out, the call ends the same way,
  and the same handlers pass the gate.
\<close>

theorem Log_ignores_Logger_level:
  assumes "logger_heap s l = Some lg"
  shows "Log E l lvl m as (state_of (Logger_SetLevel l v s)) =
           map_state (with_loggers (logger_heap (state_of (Logger_SetLevel l v s))))
             (Log E l lvl m as s)
         \<and> trace (state_of (Log E l lvl m as (state_of (Logger_SetLevel l v s))))
             = trace (state_of (Log E l lvl m as s))
         \<and> abort_of (Log E l lvl m as (state_of (Logger_SetLevel l v s)))
             = abort_of (Log E l lvl m as s)
         \<and> filter (passes_gate (state_of (Logger_SetLevel l v s)) lvl) (handlers lg)
             = filter (passes_gate s lvl) (handlers lg)"
proof -
  let ?H = "(logger_heap s)(l \<mapsto> lg\<lparr>Logger.level := v\<rparr>)"
  have s': "state_of (Logger_SetLevel l v s) = with_loggers ?H s"
    using assms by (simp add: Logger_SetLevel_def state_of_def with_loggers_def)
  have H: "logger_heap (with_loggers ?H s) = ?H" by (simp add: with_loggers_def)
  have eq: "Log E l lvl m as (with_loggers ?H s) = map_state (with_loggers ?H) (Log E l lvl m as s)"
    using Log_loggers [OF assms, of ?H "lg\<lparr>Logger.level := v\<rparr>" E lvl m as] by simp
  have gate: "passes_gate (with_loggers ?H s) = passes_gate s"
    by (rule passes_gate_cong) (simp add: with_loggers_def)
  show ?thesis
    unfolding s' H eq gate
    by (simp add: trace_map_state_with_loggers abort_of_map_state)
qed

theorem Log_ignores_Logger_level_witness:
  "logger_heap example_state 0 = Some \<lparr>Logger.level = 0, name = ''app'', handlers = [2]\<rparr>
   \<and> logger_heap (state_of (Logger_SetLevel 0 FATAL example_state)) 0
       = Some \<lparr>Logger.level = FATAL, name = ''app'', handlers = [2]\<rparr>
   \<and> trace (state_of (Log example_env 0 ERROR ''boom'' []
               (state_of (Logger_SetLevel 0 FATAL example_state))))
       = trace (state_of (Log example_env 0 ERROR ''boom'' [] example_state))"
proof -
  let ?lg = "\<lparr>Logger.level = 0, name = ''app'', handlers = [2]\<rparr>"
  have l: "logger_heap example_state 0 = Some ?lg"
    by (simp add: example_state_eq)
  have "logger_heap (state_of (Logger_SetLevel 0 FATAL example_state)) 0
       = Some \<lparr>Logger.level = FATAL, name = ''app'', handlers = [2]\<rparr>"
    by (simp add: example_state_eq Logger_SetLevel_def state_of_def)
  moreover note Log_ignores_Logger_level [OF l, of example_env ERROR "''boom''" "[]" FATAL,
      THEN conjunct2, THEN conjunct1]
  ultimately show ?thesis using l by simp
qed

section \<open>Handle\<close>

text \<open>
  C9. \<^verbatim>\<open>Handle\<close> is \<^verbatim>\<open>Emit\<close>, for every dynamic type of handler and for the
  LogHandler itself; the level of the handler is not read, so a LogHandler with a
  formatter and a writer writes the line of every record, whatever the two levels are.
\<close>

theorem Handle_always_emits:
  "ILogHandler_Handle E h r s = ILogHandler_Emit E h r s
   \<and> LogHandler_Handle E b r s = LogHandler_Emit E b r s
   \<and> (formatter b = Some f \<and> logger b = Some w \<longrightarrow>
        LogHandler_Handle E b r s =
          Inr ((), s\<lparr>clock := Suc (clock s),
                     trace := trace s @ [Write w (Format E (clock s) f r @ [CHR 0x0A])]\<rparr>))"
proof -
  have "ILogHandler_Handle E h r s = ILogHandler_Emit E h r s"
  proof (cases "handler_heap s h")
    case None
    then show ?thesis by (simp add: ILogHandler_Handle_def ILogHandler_Emit_def)
  next
    case (Some obj)
    then show ?thesis
      by (cases obj)
         (simp_all add: ILogHandler_Handle_def ILogHandler_Emit_def LogHandler_Handle_def
            ServiceHandler_Handle_def)
  qed
  then show ?thesis
    by (simp add: LogHandler_Handle_def LogHandler_Emit_def LogHandler_Format_def
        Formatter_Format_def Let_def)
qed

theorem Handle_always_emits_witness:
  "LogRecord.level (NewLogRecord DEBUG ''app'' ''detail'' []) < WARNING
   \<and> ILogHandler_Handle example_env 2 (NewLogRecord DEBUG ''app'' ''detail'' []) example_state =
       Inr ((), example_state\<lparr>clock := 1,
                  trace := [Write (Writer 7) (''DEBUG: 12:00 - detail'' @ [CHR 0x0A])]\<rparr>)"
proof -
  let ?f = "\<lparr>fmt = ''{levelname}: {asctime} - {message}'', dateFmt = ''2006-01-02 15:04:05''\<rparr>"
  let ?b = "\<lparr>LogHandler.level = WARNING, formatter = Some ?f, logger = Some (Writer 7)\<rparr>"
  let ?r = "NewLogRecord DEBUG ''app'' ''detail'' []"
  have disp: "ILogHandler_Handle example_env 2 ?r example_state
        = LogHandler_Handle example_env ?b ?r example_state"
    by (simp add: ILogHandler_Handle_def example_state_eq)
  have line: "Format example_env 0 ?f ?r = ''DEBUG: 12:00 - detail''"
    by (simp add: Format_def NewLogRecord_def LogLevel_String_def example_env_def
        with_Sprintf_fragment_def)
  have st: "clock example_state = 0 \<and> trace example_state = []"
    by (simp add: example_state_eq)
  have "LogHandler_Handle example_env ?b ?r example_state =
          Inr ((), example_state\<lparr>clock := Suc (clock example_state),
                     trace := trace example_state @
                       [Write (Writer 7) (Format example_env (clock example_state) ?f ?r @ [CHR 0x0A])]\<rparr>)"
    using Handle_always_emits [of example_env 2 ?r example_state ?b ?f "Writer 7",
        THEN conjunct2, THEN conjunct2]
    by simp
  with disp line st show ?thesis by (simp add: NewLogRecord_def)
qed

section \<open>BasicConfig\<close>

lemma BasicConfig_step:
  "BasicConfig E ((k, v) # conf) s =
     (if well_typed (ToLower E k) v
      then BasicConfig E conf
        (s\<lparr>config :=
            (if ToLower E k = ''filename'' then (config s)\<lparr>filename := (case v of VString x \<Rightarrow> x | _ \<Rightarrow> [])\<rparr>
             else if ToLower E k = ''filemode'' then (config s)\<lparr>filemode := (case v of VString x \<Rightarrow> x | _ \<Rightarrow> [])\<rparr>
             else if ToLower E k = ''format'' then (config s)\<lparr>format := (case v of VString x \<Rightarrow> x | _ \<Rightarrow> [])\<rparr>
             else if ToLower E k = ''datefmt'' then (config s)\<lparr>datefmt := (case v of VString x \<Rightarrow> x | _ \<Rightarrow> [])\<rparr>
             else if ToLower E k = ''stream'' then (config s)\<lparr>stream := (case v of VWriter w \<Rightarrow> Some w | _ \<Rightarrow> None)\<rparr>
             else config s)\<rparr>)
      else Inl (Panic, s))"
  by (cases v) (simp_all add: well_typed_def Let_def)

lemma BasicConfig_returns:
  "(\<exists>s'. BasicConfig E conf s = Inr ((), s')) \<longleftrightarrow>
   (\<forall>(k, v)\<in>set conf. well_typed (ToLower E k) v)"
proof (induction conf arbitrary: s)
  case Nil
  show ?case by simp
next
  case (Cons kv conf)
  obtain k v where kv: "kv = (k, v)" by (cases kv)
  show ?case
    unfolding kv BasicConfig_step
    by (simp add: Cons.IH)
qed

lemma BasicConfig_abort: "BasicConfig E conf s = Inl (a, s') \<Longrightarrow> a = Panic"
proof (induction conf arbitrary: s)
  case Nil
  then show ?case by simp
next
  case (Cons kv conf)
  obtain k v where kv: "kv = (k, v)" by (cases kv)
  from Cons.prems show ?case
    unfolding kv BasicConfig_step
    by (auto split: if_splits dest: Cons.IH)
qed

lemma BasicConfig_frame:
  "\<exists>c. state_of (BasicConfig E conf s) = s\<lparr>config := c\<rparr>"
proof (induction conf arbitrary: s)
  case Nil
  have "state_of (BasicConfig E [] s) = s\<lparr>config := config s\<rparr>" by (simp add: state_of_def)
  then show ?case by blast
next
  case (Cons kv conf)
  obtain k v where kv: "kv = (k, v)" by (cases kv)
  show ?case
  proof (cases "well_typed (ToLower E k) v")
    case False
    then have "state_of (BasicConfig E (kv # conf) s) = s\<lparr>config := config s\<rparr>"
      unfolding kv BasicConfig_step by (simp add: state_of_def)
    then show ?thesis by blast
  next
    case True
    then obtain c0 where "BasicConfig E (kv # conf) s = BasicConfig E conf (s\<lparr>config := c0\<rparr>)"
      unfolding kv BasicConfig_step by simp
    moreover obtain c where "state_of (BasicConfig E conf (s\<lparr>config := c0\<rparr>)) = s\<lparr>config := c0\<rparr>\<lparr>config := c\<rparr>"
      using Cons.IH by blast
    ultimately have "state_of (BasicConfig E (kv # conf) s) = s\<lparr>config := c\<rparr>" by simp
    then show ?thesis by blast
  qed
qed

text \<open>
  C10. \<^verbatim>\<open>BasicConfig\<close> returns exactly for the mappings in which every recognized key
  (after lower-casing) carries a value of the type of its field, and panics on a failed
  type assertion exactly for the others: \<^verbatim>\<open>filename\<close> bound to an integer and
  \<^verbatim>\<open>stream\<close> bound to a value that is no writer are such inputs.
\<close>

theorem BasicConfig_panics_on_wrong_type:
  "((\<exists>s'. BasicConfig E conf s = Inr ((), s')) \<longleftrightarrow>
      (\<forall>(k, v)\<in>set conf. well_typed (ToLower E k) v))
   \<and> ((\<exists>s'. BasicConfig E conf s = Inl (Panic, s')) \<longleftrightarrow>
      \<not> (\<forall>(k, v)\<in>set conf. well_typed (ToLower E k) v))"
proof -
  have a: "(\<exists>s'. BasicConfig E conf s = Inr ((), s')) \<longleftrightarrow>
      (\<forall>(k, v)\<in>set conf. well_typed (ToLower E k) v)"
    by (rule BasicConfig_returns)
  have "(\<exists>s'. BasicConfig E conf s = Inl (Panic, s')) \<longleftrightarrow> \<not> (\<exists>s'. BasicConfig E conf s = Inr ((), s'))"
  proof (cases "BasicConfig E conf s")
    case (Inl p)
    obtain a s' where "p = (a, s')" by (cases p)
    with Inl BasicConfig_abort [of E conf s a s'] show ?thesis by simp
  next
    case (Inr p)
    then show ?thesis by (cases p) simp
  qed
  with a show ?thesis by simp
qed

theorem BasicConfig_panics_on_wrong_type_witness:
  "(\<exists>s'. BasicConfig example_env [(''FileName'', VInt 3)] initial_state = Inl (Panic, s'))
   \<and> (\<exists>s'. BasicConfig example_env [(''stream'', VOther 0)] initial_state = Inl (Panic, s'))
   \<and> (\<exists>s'. BasicConfig example_env [(''Format'', VString ''{message}''), (''colour'', VInt 1)]
          initial_state = Inr ((), s'))"
proof -
  have lower: "ToLower example_env ''FileName'' = ''filename''"
    "ToLower example_env ''stream'' = ''stream''"
    "ToLower example_env ''Format'' = ''format''"
    "ToLower example_env ''colour'' = ''colour''"
    by (simp_all add: example_env_def with_Sprintf_fragment_def ascii_lower_def)
  have "\<not> (\<forall>(k, v)\<in>set [(''FileName'', VInt 3)]. well_typed (ToLower example_env k) v)"
    by (simp add: lower well_typed_def)
  then have 1: "\<exists>s'. BasicConfig example_env [(''FileName'', VInt 3)] initial_state = Inl (Panic, s')"
    using BasicConfig_panics_on_wrong_type [of example_env "[(''FileName'', VInt 3)]" initial_state]
    by blast
  have "\<not> (\<forall>(k, v)\<in>set [(''stream'', VOther 0)]. well_typed (ToLower example_env k) v)"
    by (simp add: lower well_typed_def)
  then have 2: "\<exists>s'. BasicConfig example_env [(''stream'', VOther 0)] initial_state = Inl (Panic, s')"
    using BasicConfig_panics_on_wrong_type [of example_env "[(''stream'', VOther 0)]" initial_state]
    by blast
  have "\<forall>(k, v)\<in>set [(''Format'', VString ''{message}''), (''colour'', VInt 1)].
          well_typed (ToLower example_env k) v"
    by (simp add: lower well_typed_def)
  then have 3: "\<exists>s'. BasicConfig example_env [(''Format'', VString ''{message}''), (''colour'', VInt 1)]
          initial_state = Inr ((), s')"
    using BasicConfig_panics_on_wrong_type
      [of example_env "[(''Format'', VString ''{message}''), (''colour'', VInt 1)]" initial_state]
    by blast
  from 1 2 3 show ?thesis by simp
qed

section \<open>What each call leaves unchanged\<close>

lemma output_only_refl: "output_only s s"
  by (simp add: output_only_def)

lemma output_only_trans: "output_only s s1 \<Longrightarrow> output_only s1 s2 \<Longrightarrow> output_only s s2"
  unfolding output_only_def
  by (metis (no_types, lifting) state.surjective state.update_convs(7) state.update_convs(8))

lemma output_only_keeps: "output_only s s' \<Longrightarrow> keeps_registry s s'"
  unfolding output_only_def keeps_registry_def
  by (metis order_refl state.select_convs(2) state.select_convs(3) state.select_convs(5)
      state.select_convs(6) state.surjective state.update_convs(7) state.update_convs(8))

lemma ILogHandler_GetLevel_state: "ILogHandler_GetLevel h s = Inr (T, s1) \<Longrightarrow> s1 = s"
  by (simp add: ILogHandler_GetLevel_def split: option.splits)

lemma Log_handlers_output: "output_only s (state_of (Log_handlers E lvl r hs s))"
proof (induction hs arbitrary: s)
  case Nil
  show ?case by (simp add: state_of_def output_only_refl)
next
  case (Cons h hs)
  show ?case
  proof (cases "handler_heap s h")
    case None
    then show ?thesis by (simp add: ILogHandler_GetLevel_def state_of_def output_only_refl)
  next
    case (Some obj)
    have level: "ILogHandler_GetLevel h s = Inr (LogHandler.level (embedded obj), s)"
      using Some by (simp add: ILogHandler_GetLevel_def LogHandler_GetLevel_def)
    show ?thesis
    proof (cases "lvl \<ge> LogHandler.level (embedded obj)")
      case False
      with level show ?thesis by (simp add: Cons.IH)
    next
      case True
      show ?thesis
      proof (cases "ILogHandler_Handle E h r s")
        case (Inl p)
        with level True ILogHandler_Handle_output [of s E h r] show ?thesis by simp
      next
        case (Inr p)
        obtain u s1 where p: "p = (u, s1)" by (cases p)
        have "output_only s s1"
          using ILogHandler_Handle_output [of s E h r] Inr p by (simp add: state_of_def)
        moreover have "output_only s1 (state_of (Log_handlers E lvl r hs s1))" by (rule Cons.IH)
        ultimately have "output_only s (state_of (Log_handlers E lvl r hs s1))"
          by (rule output_only_trans)
        with level True Inr p show ?thesis by simp
      qed
    qed
  qed
qed

lemma Log_output: "output_only s (state_of (Log E l lvl m as s))"
proof (cases "logger_heap s l")
  case None
  then show ?thesis by (simp add: Log_def state_of_def output_only_refl)
next
  case (Some lg)
  have "state_of (Log E l lvl m as s) =
        state_of (Log_handlers E lvl (NewLogRecord lvl (Logger.name lg) m as) (handlers lg) s)"
    using Some by (simp add: Log_def state_of_def split: sum.split prod.split)
  then show ?thesis by (simp add: Log_handlers_output)
qed

lemma ILogHandler_Format_output: "output_only s (state_of (ILogHandler_Format E h r s))"
proof (cases "handler_heap s h")
  case None
  then show ?thesis by (simp add: ILogHandler_Format_def state_of_def output_only_refl)
next
  case (Some obj)
  then show ?thesis
    by (simp add: ILogHandler_Format_def LogHandler_Format_def Formatter_Format_output)
qed

lemma ILogHandler_Emit_output: "output_only s (state_of (ILogHandler_Emit E h r s))"
proof (cases "handler_heap s h")
  case None
  then show ?thesis by (simp add: ILogHandler_Emit_def state_of_def output_only_refl)
next
  case (Some obj)
  then show ?thesis
    by (cases obj)
       (simp_all add: ILogHandler_Emit_def LogHandler_Emit_output ServiceHandler_Emit_output)
qed

lemma BasicConfig_keeps: "keeps_registry s (state_of (BasicConfig E conf s))"
proof -
  obtain c where "state_of (BasicConfig E conf s) = s\<lparr>config := c\<rparr>"
    using BasicConfig_frame by blast
  then show ?thesis by (simp add: keeps_registry_def)
qed

lemma new_handler_keeps: "keeps_registry s (snd (new_handler obj s))"
  by (simp add: new_handler_def keeps_registry_def)

lemma keeps_registry_trans:
  "keeps_registry s s1 \<Longrightarrow> keeps_registry s1 s2 \<Longrightarrow> keeps_registry s s2"
  by (auto simp add: keeps_registry_def)

lemma NewLogHandler_keeps: "keeps_registry s (snd (NewLogHandler s))"
  by (simp add: NewLogHandler_def new_handler_keeps)

lemma NewStreamHandler_keeps: "keeps_registry s (snd (NewStreamHandler strm s))"
  by (simp add: NewStreamHandler_def NewLogHandler_def new_handler_def keeps_registry_def)

lemma NewFileHandler_keeps: "keeps_registry s (snd (NewFileHandler E fname mode s))"
  by (simp add: NewFileHandler_def NewStreamHandler_def NewLogHandler_def new_handler_def
      keeps_registry_def Let_def)

lemma NewServiceHandler_keeps: "keeps_registry s (snd (NewServiceHandler service s))"
  by (simp add: NewServiceHandler_def NewLogHandler_def new_handler_def keeps_registry_def)

lemma ILogHandler_SetLevel_keeps: "keeps_registry s (state_of (ILogHandler_SetLevel h lvl s))"
  by (simp add: ILogHandler_SetLevel_def state_of_def keeps_registry_def split: option.split)

lemma ILogHandler_SetFormatter_keeps: "keeps_registry s (state_of (ILogHandler_SetFormatter h f s))"
  by (simp add: ILogHandler_SetFormatter_def state_of_def keeps_registry_def split: option.split)

lemma exec_servicehandler_logger:
  "servicehandler_logger (exec E c s) = servicehandler_logger s"
proof (cases c)
  case (Call_GetLogger loggername)
  then show ?thesis
    by (simp add: GetLogger_def NewLogger_def new_logger_def Let_def split: option.split)
next
  case (Call_BasicConfig conf)
  then show ?thesis using BasicConfig_keeps [of s E conf] by (simp add: keeps_registry_def)
next
  case (Call_NewLogger nm)
  then show ?thesis by (simp add: NewLogger_def new_logger_def)
next
  case Call_NewLogHandler
  then show ?thesis using NewLogHandler_keeps [of s] by (simp add: keeps_registry_def)
next
  case (Call_NewStreamHandler strm)
  then show ?thesis using NewStreamHandler_keeps [of s strm] by (simp add: keeps_registry_def)
next
  case (Call_NewFileHandler fname mode)
  then show ?thesis using NewFileHandler_keeps [of s E fname mode] by (simp add: keeps_registry_def)
next
  case (Call_NewServiceHandler service)
  then show ?thesis using NewServiceHandler_keeps [of s service] by (simp add: keeps_registry_def)
next
  case (Call_Logger_SetLevel l lvl)
  then show ?thesis by (simp add: Logger_SetLevel_def state_of_def split: option.split)
next
  case (Call_AddHandler l h)
  then show ?thesis by (simp add: AddHandler_def state_of_def split: option.split)
next
  case (Call_Log l lvl m as)
  then show ?thesis
    using output_only_keeps [OF Log_output [of s E l lvl m as]] by (simp add: keeps_registry_def)
next
  case (Call_SetLevel h lvl)
  then show ?thesis using ILogHandler_SetLevel_keeps [of s h lvl] by (simp add: keeps_registry_def)
next
  case (Call_SetFormatter h f)
  then show ?thesis using ILogHandler_SetFormatter_keeps [of s h f] by (simp add: keeps_registry_def)
next
  case (Call_Format h r)
  then show ?thesis
    using output_only_keeps [OF ILogHandler_Format_output [of s E h r]] by (simp add: keeps_registry_def)
next
  case (Call_Emit h r)
  then show ?thesis
    using output_only_keeps [OF ILogHandler_Emit_output [of s E h r]] by (simp add: keeps_registry_def)
next
  case (Call_Handle h r)
  then show ?thesis
    using output_only_keeps [OF ILogHandler_Handle_output [of s E h r]] by (simp add: keeps_registry_def)
qed

lemma run_servicehandler_logger:
  "servicehandler_logger (run E calls s) = servicehandler_logger s"
  unfolding run_def
  by (induction calls arbitrary: s) (simp_all add: exec_servicehandler_logger)

section \<open>ServiceHandler\<close>

text \<open>With a service logger in place, \<^verbatim>\<open>Emit\<close> calls the operation its switch selects.\<close>

lemma ServiceHandler_Emit_selects:
  "servicehandler_logger s = Some lg \<Longrightarrow> formatter b = Some f \<Longrightarrow>
   ServiceHandler_Emit E b r s =
     Inr ((), s\<lparr>clock := Suc (clock s),
                trace := trace s @
                  [if LogRecord.level r = WARNING then Logger_Warning lg (Format E (clock s) f r)
                   else if LogRecord.level r = ERROR then Logger_Error lg (Format E (clock s) f r)
                   else Logger_Info lg (Format E (clock s) f r)]\<rparr>)"
  by (simp add: ServiceHandler_Emit_def LogHandler_Format_def Formatter_Format_def
      LogRecord_GetLevel_def Let_def)

lemma NewServiceHandler_object:
  "NewServiceHandler service s = (h, s1) \<Longrightarrow>
   handler_heap s1 h = Some (ServiceHandler_obj (NewLogHandler_value s) service)
   \<and> servicehandler_logger s1 = servicehandler_logger s"
  by (auto simp add: NewServiceHandler_def NewLogHandler_def new_handler_def Let_def)

text \<open>
  C8. No function of the program assigns the package variable \<^verbatim>\<open>logger\<close> of
  servicehandler, so it is nil after every sequence of calls; \<^verbatim>\<open>Emit\<close> of a
  ServiceHandler made then formats the record and panics on the call through the nil
  logger: no operation of a service logger receives the string.
\<close>

theorem ServiceHandler_Emit_panics:
  "NewServiceHandler service (run E calls initial_state) = (h, s1) \<Longrightarrow>
   ILogHandler_Emit E h r s1 = Inl (Panic, s1\<lparr>clock := Suc (clock s1)\<rparr>)"
proof -
  assume new: "NewServiceHandler service (run E calls initial_state) = (h, s1)"
  let ?s = "run E calls initial_state"
  have "servicehandler_logger ?s = None"
    by (simp add: run_servicehandler_logger initial_state_def)
  with NewServiceHandler_object [OF new]
  have obj: "handler_heap s1 h = Some (ServiceHandler_obj (NewLogHandler_value ?s) service)"
    and nil: "servicehandler_logger s1 = None" by simp_all
  have f: "formatter (NewLogHandler_value ?s) \<noteq> None"
    by (simp add: NewLogHandler_value_def LogHandler_SetFormatter_def)
  then obtain f' where f': "formatter (NewLogHandler_value ?s) = Some f'" by blast
  show ?thesis
    using obj nil f'
    by (simp add: ILogHandler_Emit_def ServiceHandler_Emit_def LogHandler_Format_def
        Formatter_Format_def Let_def)
qed

theorem ServiceHandler_Emit_panics_witness:
  "ILogHandler_Emit example_env (fst (NewServiceHandler 5 initial_state))
     (NewLogRecord WARNING ''svc'' ''low disk'' []) (snd (NewServiceHandler 5 initial_state))
   = Inl (Panic, (snd (NewServiceHandler 5 initial_state))\<lparr>clock := 1\<rparr>)
   \<and> trace (snd (NewServiceHandler 5 initial_state)) = []"
proof -
  have "NewServiceHandler 5 (run example_env [] initial_state)
        = (fst (NewServiceHandler 5 initial_state), snd (NewServiceHandler 5 initial_state))"
    by (simp add: run_def)
  from ServiceHandler_Emit_panics [OF this, of "NewLogRecord WARNING ''svc'' ''low disk'' []"]
  show ?thesis
    by (simp add: NewServiceHandler_def NewLogHandler_def new_handler_def initial_state_def Let_def)
qed

section \<open>The configuration at construction\<close>

lemma BasicConfig_handler_heap:
  "handler_heap (state_of (BasicConfig E conf s)) = handler_heap s"
proof -
  obtain c where "state_of (BasicConfig E conf s) = s\<lparr>config := c\<rparr>"
    using BasicConfig_frame by blast
  then show ?thesis by simp
qed

lemma snapshot_of_NewLogHandler_value:
  "LogHandler.level (NewLogHandler_value s) = Config.level (config s)
   \<and> formatter (NewLogHandler_value s) = Some \<lparr>fmt = format (config s), dateFmt = datefmt (config s)\<rparr>"
  by (simp add: NewLogHandler_value_def LogHandler_SetFormatter_def LogHandler_SetLevel_def
      zero_LogHandler_def NewFormatter_def)

text \<open>
  C6. The handler each of the four constructors makes carries the level of the
  configuration of that moment and a formatter made from its format and datefmt; and
  \<^verbatim>\<open>BasicConfig\<close>, returning or panicking, leaves every handler object as it was.
  Formatters are values here: no code writes into a Formatter, so whether two handlers
  share one cannot be observed.
\<close>

theorem handler_is_snapshot_of_config:
  "(\<exists>obj. constructed (NewLogHandler s) = Some obj \<and> snapshot_of (config s) obj)
   \<and> (\<exists>obj. constructed (NewStreamHandler strm s) = Some obj \<and> snapshot_of (config s) obj)
   \<and> (\<exists>obj. constructed (NewFileHandler E fname mode s) = Some obj \<and> snapshot_of (config s) obj)
   \<and> (\<exists>obj. constructed (NewServiceHandler service s) = Some obj \<and> snapshot_of (config s) obj)
   \<and> handler_heap (state_of (BasicConfig E conf s)) = handler_heap s"
proof -
  note v = snapshot_of_NewLogHandler_value
  have 1: "\<exists>obj. constructed (NewLogHandler s) = Some obj \<and> snapshot_of (config s) obj"
    by (simp add: constructed_def NewLogHandler_def new_handler_def snapshot_of_def v)
  have 2: "\<exists>obj. constructed (NewStreamHandler strm s) = Some obj \<and> snapshot_of (config s) obj"
    by (simp add: constructed_def NewStreamHandler_def NewStreamHandler_value_def NewLogHandler_def
        new_handler_def snapshot_of_def v Let_def)
  have 3: "\<exists>obj. constructed (NewFileHandler E fname mode s) = Some obj \<and> snapshot_of (config s) obj"
    by (simp add: constructed_def NewFileHandler_def NewStreamHandler_def NewStreamHandler_value_def
        NewLogHandler_def new_handler_def snapshot_of_def
        v [of "s\<lparr>trace := trace s @ [Open fname]\<rparr>", simplified] Let_def)
  have 4: "\<exists>obj. constructed (NewServiceHandler service s) = Some obj \<and> snapshot_of (config s) obj"
    by (simp add: constructed_def NewServiceHandler_def NewLogHandler_def
        new_handler_def snapshot_of_def v Let_def)
  from 1 2 3 4 show ?thesis by (simp add: BasicConfig_handler_heap)
qed

text \<open>
  After \<^verbatim>\<open>BasicConfig\<close> replaced the format, the handler of the example still has the
  format it was made with, and a handler made now has the new one.
\<close>

theorem handler_is_snapshot_of_config_witness:
  "handler_heap (state_of (BasicConfig example_env [(''Format'', VString ''{message}'')] example_state)) 2
     = Some (StreamHandler_obj \<lparr>LogHandler.level = WARNING,
              formatter = Some \<lparr>fmt = ''{levelname}: {asctime} - {message}'',
                                dateFmt = ''2006-01-02 15:04:05''\<rparr>,
              logger = Some (Writer 7)\<rparr>)
   \<and> constructed (NewStreamHandler []
        (state_of (BasicConfig example_env [(''Format'', VString ''{message}'')] example_state)))
     = Some (StreamHandler_obj \<lparr>LogHandler.level = INFO,
              formatter = Some \<lparr>fmt = ''{message}'', dateFmt = ''2006-01-02 15:04:05''\<rparr>,
              logger = Some Stderr\<rparr>)"
proof -
  let ?conf = "[(''Format'', VString ''{message}'')]"
  let ?s1 = "state_of (BasicConfig example_env ?conf example_state)"
  note inst = handler_is_snapshot_of_config [of example_state "[]" example_env "[]" "[]" 0 ?conf]
  have old: "handler_heap ?s1 2 = handler_heap example_state 2"
    using inst by simp
  have lower: "ToLower example_env ''Format'' = ''format''"
    by (simp add: example_env_def with_Sprintf_fragment_def ascii_lower_def)
  have cfg: "config ?s1 = initial_config\<lparr>format := ''{message}''\<rparr>"
    by (simp add: lower state_of_def example_state_eq)
  have new: "constructed (NewStreamHandler [] t)
     = Some (StreamHandler_obj \<lparr>LogHandler.level = INFO,
              formatter = Some \<lparr>fmt = ''{message}'', dateFmt = ''2006-01-02 15:04:05''\<rparr>,
              logger = Some Stderr\<rparr>)"
    if "config t = initial_config\<lparr>format := ''{message}''\<rparr>" for t
    using that
    by (simp add: constructed_def NewStreamHandler_def NewStreamHandler_value_def NewLogHandler_def
        NewLogHandler_value_def new_handler_def LogHandler_SetLevel_def LogHandler_SetFormatter_def
        zero_LogHandler_def NewFormatter_def initial_config_def Let_def)
  from old new [OF cfg] show ?thesis by (simp add: example_state_eq)
qed

section \<open>The registry\<close>

lemma registry_ok_keeps: "registry_ok s \<Longrightarrow> keeps_registry s s' \<Longrightarrow> registry_ok s'"
  unfolding registry_ok_def keeps_registry_def
  by (metis less_le_trans)

lemma keeps_items: "keeps_registry s s' \<Longrightarrow> items s' = items s"
  by (simp add: keeps_registry_def)

lemma registry_ok_NewLogger: "registry_ok s \<Longrightarrow> registry_ok (snd (NewLogger nm s))"
  unfolding registry_ok_def NewLogger_def new_logger_def
  by (auto simp add: less_Suc_eq)

lemma registry_ok_GetLogger: "registry_ok s \<Longrightarrow> registry_ok (snd (GetLogger loggername s))"
  unfolding registry_ok_def GetLogger_def NewLogger_def new_logger_def Let_def
  by (auto simp add: less_Suc_eq split: option.split)

lemma registry_ok_Logger_SetLevel:
  "registry_ok s \<Longrightarrow> registry_ok (state_of (Logger_SetLevel l lvl s))"
  unfolding registry_ok_def Logger_SetLevel_def state_of_def
  by (auto split: option.split) (metis option.inject)

lemma registry_ok_AddHandler:
  "registry_ok s \<Longrightarrow> registry_ok (state_of (AddHandler l h s))"
  unfolding registry_ok_def AddHandler_def state_of_def
  by (auto split: option.split) (metis option.inject)

lemma exec_keeps:
  "(\<exists>x. c = Call_GetLogger x) \<or> (\<exists>x. c = Call_NewLogger x) \<or> (\<exists>l v. c = Call_Logger_SetLevel l v)
   \<or> (\<exists>l h. c = Call_AddHandler l h) \<or> keeps_registry s (exec E c s)"
proof (cases c)
  case (Call_BasicConfig conf)
  then show ?thesis by (simp add: BasicConfig_keeps)
next
  case Call_NewLogHandler
  then show ?thesis by (simp add: NewLogHandler_keeps)
next
  case (Call_NewStreamHandler strm)
  then show ?thesis by (simp add: NewStreamHandler_keeps)
next
  case (Call_NewFileHandler fname mode)
  then show ?thesis by (simp add: NewFileHandler_keeps)
next
  case (Call_NewServiceHandler service)
  then show ?thesis by (simp add: NewServiceHandler_keeps)
next
  case (Call_Log l lvl m as)
  then show ?thesis by (simp add: output_only_keeps Log_output)
next
  case (Call_SetLevel h lvl)
  then show ?thesis by (simp add: ILogHandler_SetLevel_keeps)
next
  case (Call_SetFormatter h f)
  then show ?thesis by (simp add: ILogHandler_SetFormatter_keeps)
next
  case (Call_Format h r)
  then show ?thesis by (simp add: output_only_keeps ILogHandler_Format_output)
next
  case (Call_Emit h r)
  then show ?thesis by (simp add: output_only_keeps ILogHandler_Emit_output)
next
  case (Call_Handle h r)
  then show ?thesis by (simp add: output_only_keeps ILogHandler_Handle_output)
qed simp_all

lemma exec_registry_ok: "registry_ok s \<Longrightarrow> registry_ok (exec E c s)"
  using exec_keeps [of c s E]
  by (auto simp add: registry_ok_GetLogger registry_ok_NewLogger registry_ok_Logger_SetLevel
      registry_ok_AddHandler intro: registry_ok_keeps)

lemma exec_items: "items s x = Some r \<Longrightarrow> items (exec E c s) x = Some r"
  using exec_keeps [of c s E]
  by (auto simp add: keeps_items GetLogger_def NewLogger_def new_logger_def Logger_SetLevel_def
      AddHandler_def state_of_def Let_def split: option.split)

lemma run_registry_ok: "registry_ok s \<Longrightarrow> registry_ok (run E calls s)"
  unfolding run_def
  by (induction calls arbitrary: s) (simp_all add: exec_registry_ok)

lemma run_items: "items s x = Some r \<Longrightarrow> items (run E calls s) x = Some r"
  unfolding run_def
  by (induction calls arbitrary: s) (simp_all add: exec_items)

lemma registry_ok_initial: "registry_ok initial_state"
  by (simp add: registry_ok_def initial_state_def)

lemma GetLogger_registers: "GetLogger [x] s = (r, s1) \<Longrightarrow> items s1 x = Some r"
  by (auto simp add: GetLogger_def NewLogger_def new_logger_def Let_def split: option.splits)

lemma GetLogger_registered: "items s x = Some r \<Longrightarrow> GetLogger [x] s = (r, s)"
  by (simp add: GetLogger_def)

lemma GetLogger_new:
  "items s x = None \<Longrightarrow>
   GetLogger [x] s =
     (next_ref s,
      s\<lparr>logger_heap := (logger_heap s)(next_ref s \<mapsto> \<lparr>Logger.level = 0, name = x, handlers = []\<rparr>),
        next_ref := Suc (next_ref s),
        items := (items s)(x \<mapsto> next_ref s)\<rparr>)"
  by (simp add: GetLogger_def NewLogger_def new_logger_def Let_def)

lemma GetLogger_named:
  assumes "registry_ok s" and "GetLogger [x] s = (r, s1)"
  shows "\<exists>lg. logger_heap s1 r = Some lg \<and> Logger.name lg = x"
proof -
  have "registry_ok (snd (GetLogger [x] s))" using assms(1) by (rule registry_ok_GetLogger)
  then have "registry_ok s1" using assms(2) by simp
  moreover have "items s1 x = Some r" using assms(2) by (rule GetLogger_registers)
  ultimately show ?thesis unfolding registry_ok_def by blast
qed

text \<open>
  C3, as the code has it. \<^verbatim>\<open>GetLogger(x)\<close> returns the logger the registry binds to x
  and changes nothing, or, when x is not bound, makes a new logger named x, without
  handlers, and binds x to it; the logger it returns is bound to x afterwards, so a
  second \<^verbatim>\<open>GetLogger(x)\<close> returns the same one and changes nothing, also after any
  calls in between: no call removes or replaces a binding. Without an argument
  \<^verbatim>\<open>GetLogger\<close> is \<^verbatim>\<open>GetLogger("root")\<close>. In every state a program reaches, each
  bound name is bound to one allocated logger that carries this name, which is what
  \<^verbatim>\<open>GetLogger\<close> returns there, and two names never share a logger.
\<close>

theorem GetLogger_idempotent:
  "(items s x = Some r \<longrightarrow> GetLogger [x] s = (r, s))
   \<and> (items s x = None \<longrightarrow>
        GetLogger [x] s =
          (next_ref s,
           s\<lparr>logger_heap :=
                (logger_heap s)(next_ref s \<mapsto> \<lparr>Logger.level = 0, name = x, handlers = []\<rparr>),
             next_ref := Suc (next_ref s),
             items := (items s)(x \<mapsto> next_ref s)\<rparr>))
   \<and> (GetLogger [x] s = (r, s1) \<longrightarrow>
        items s1 x = Some r
        \<and> GetLogger [x] s1 = (r, s1)
        \<and> GetLogger [x] (run E calls s1) = (r, run E calls s1))
   \<and> GetLogger [] s = GetLogger [''root''] s
   \<and> registry_ok (run E calls initial_state)
   \<and> (GetLogger [x] (run E calls initial_state) = (r, s1) \<longrightarrow>
        (\<exists>lg. logger_heap s1 r = Some lg \<and> Logger.name lg = x))
   \<and> (\<forall>y z q. items (run E calls initial_state) y = Some q
           \<and> items (run E calls initial_state) z = Some q \<longrightarrow> y = z)"
proof -
  have a0: "items s x = Some r \<longrightarrow> GetLogger [x] s = (r, s)"
    by (simp add: GetLogger_registered)
  have a1: "items s x = None \<longrightarrow>
        GetLogger [x] s =
          (next_ref s,
           s\<lparr>logger_heap :=
                (logger_heap s)(next_ref s \<mapsto> \<lparr>Logger.level = 0, name = x, handlers = []\<rparr>),
             next_ref := Suc (next_ref s),
             items := (items s)(x \<mapsto> next_ref s)\<rparr>)"
    by (simp add: GetLogger_new)
  have a: "GetLogger [x] s = (r, s1) \<longrightarrow>
      items s1 x = Some r \<and> GetLogger [x] s1 = (r, s1)
      \<and> GetLogger [x] (run E calls s1) = (r, run E calls s1)"
  proof
    assume "GetLogger [x] s = (r, s1)"
    then have reg: "items s1 x = Some r" by (rule GetLogger_registers)
    then have "items (run E calls s1) x = Some r" by (rule run_items)
    with reg show "items s1 x = Some r \<and> GetLogger [x] s1 = (r, s1)
        \<and> GetLogger [x] (run E calls s1) = (r, run E calls s1)"
      by (simp add: GetLogger_registered)
  qed
  have b: "GetLogger [] s = GetLogger [''root''] s"
    by (simp add: GetLogger_def)
  have c: "registry_ok (run E calls initial_state)"
    using registry_ok_initial by (rule run_registry_ok)
  have e: "GetLogger [x] (run E calls initial_state) = (r, s1) \<longrightarrow>
        (\<exists>lg. logger_heap s1 r = Some lg \<and> Logger.name lg = x)"
    using GetLogger_named [OF c] by blast
  have d: "\<forall>y z q. items (run E calls initial_state) y = Some q
           \<and> items (run E calls initial_state) z = Some q \<longrightarrow> y = z"
    using c unfolding registry_ok_def by (metis option.inject)
  from a0 a1 a b c d e show ?thesis by blast
qed

theorem GetLogger_idempotent_witness:
  "GetLogger [''app''] initial_state =
     (0, initial_state\<lparr>logger_heap := (\<lambda>r. None)(0 \<mapsto> \<lparr>Logger.level = 0, name = ''app'', handlers = []\<rparr>),
                        next_ref := 1, items := (\<lambda>x. None)(''app'' \<mapsto> 0)\<rparr>)
   \<and> GetLogger [''app''] (run example_env [Call_NewLogger ''app'', Call_GetLogger [''db'']]
        (snd (GetLogger [''app''] initial_state)))
      = (0, run example_env [Call_NewLogger ''app'', Call_GetLogger [''db'']]
              (snd (GetLogger [''app''] initial_state)))
   \<and> fst (GetLogger [''db''] (run example_env [Call_NewLogger ''app'', Call_GetLogger [''db'']]
        (snd (GetLogger [''app''] initial_state)))) = 2"
proof -
  note inst = GetLogger_idempotent [where x = "''app''" and s = initial_state and r = 0
      and ?s1.0 = "snd (GetLogger [''app''] initial_state)" and E = example_env
      and calls = "[Call_NewLogger ''app'', Call_GetLogger [''db'']]"]
  have none: "items initial_state ''app'' = None" by (simp add: initial_state_def)
  with inst have new: "GetLogger [''app''] initial_state =
     (next_ref initial_state,
      initial_state\<lparr>logger_heap :=
          (logger_heap initial_state)(next_ref initial_state \<mapsto>
             \<lparr>Logger.level = 0, name = ''app'', handlers = []\<rparr>),
        next_ref := Suc (next_ref initial_state),
        items := (items initial_state)(''app'' \<mapsto> next_ref initial_state)\<rparr>)"
    by blast
  then have first: "GetLogger [''app''] initial_state =
     (0, initial_state\<lparr>logger_heap := (\<lambda>r. None)(0 \<mapsto> \<lparr>Logger.level = 0, name = ''app'', handlers = []\<rparr>),
                        next_ref := 1, items := (\<lambda>x. None)(''app'' \<mapsto> 0)\<rparr>)"
    by (simp add: initial_state_def)
  then have "GetLogger [''app''] initial_state = (0, snd (GetLogger [''app''] initial_state))"
    by simp
  with inst
  have again: "GetLogger [''app''] (run example_env [Call_NewLogger ''app'', Call_GetLogger [''db'']]
        (snd (GetLogger [''app''] initial_state)))
      = (0, run example_env [Call_NewLogger ''app'', Call_GetLogger [''db'']]
              (snd (GetLogger [''app''] initial_state)))"
    by blast
  have db: "fst (GetLogger [''db''] (run example_env [Call_NewLogger ''app'', Call_GetLogger [''db'']]
        (snd (GetLogger [''app''] initial_state)))) = 2"
    by (simp add: run_def GetLogger_def NewLogger_def new_logger_def initial_state_def Let_def)
  from first again db show ?thesis by blast
qed

text \<open>
  C3, as it is stated, fails in one part: more than one Logger of a name can exist. After
  \<^verbatim>\<open>GetLogger("app")\<close> the exported \<^verbatim>\<open>NewLogger("app")\<close> makes a second Logger named
  app, which the registry does not hold.
\<close>

theorem two_Loggers_of_one_name:
  "logger_heap (run example_env [Call_GetLogger [''app''], Call_NewLogger ''app''] initial_state) 0
     = Some \<lparr>Logger.level = 0, name = ''app'', handlers = []\<rparr>
   \<and> logger_heap (run example_env [Call_GetLogger [''app''], Call_NewLogger ''app''] initial_state) 1
     = Some \<lparr>Logger.level = 0, name = ''app'', handlers = []\<rparr>
   \<and> (0 :: ref) \<noteq> 1"
  by (simp add: run_def GetLogger_def NewLogger_def new_logger_def initial_state_def Let_def)

section \<open>The substitutions of Format\<close>

lemma Replace1_absent: "\<not> sublist old s \<Longrightarrow> Replace1 s old new = s"
proof (induction s)
  case Nil
  then show ?case by simp
next
  case (Cons c s)
  from Cons.prems have "\<not> prefix old (c # s)" and "\<not> sublist old s"
    by (auto simp add: sublist_Cons_right)
  with Cons.IH show ?case by simp
qed

lemma Replace1_leftmost:
  "s = pre @ old @ post \<Longrightarrow>
   (\<forall>pre' post'. s = pre' @ old @ post' \<longrightarrow> length pre \<le> length pre') \<Longrightarrow>
   Replace1 s old new = pre @ new @ post"
proof (induction pre arbitrary: s)
  case Nil
  then have s: "s = old @ post" by simp
  show ?case
  proof (cases s)
    case Nil
    with s show ?thesis by simp
  next
    case (Cons c s')
    have "prefix old (c # s')" using s Cons by (metis prefixI)
    moreover have "drop (length old) (c # s') = post" using s Cons by (metis append_eq_conv_conj)
    ultimately show ?thesis using Cons by simp
  qed
next
  case (Cons c pre)
  let ?s' = "pre @ old @ post"
  have s: "s = c # ?s'" using Cons.prems(1) by simp
  have np: "\<not> prefix old s"
  proof
    assume "prefix old s"
    then obtain post' where "s = [] @ old @ post'" by (auto simp add: prefix_def)
    with Cons.prems(2) have "length (c # pre) \<le> length ([] :: string)" by blast
    then show False by simp
  qed
  have least: "\<forall>pre' post'. ?s' = pre' @ old @ post' \<longrightarrow> length pre \<le> length pre'"
  proof (intro allI impI)
    fix pre' post'
    assume "?s' = pre' @ old @ post'"
    then have "s = (c # pre') @ old @ post'" using s by simp
    with Cons.prems(2) have "length (c # pre) \<le> length (c # pre')" by blast
    then show "length pre \<le> length pre'" by simp
  qed
  have "Replace1 ?s' old new = pre @ new @ post"
    using refl least by (rule Cons.IH)
  with np s show ?case by simp
qed

lemma leftmost_exists:
  assumes "sublist old s"
  shows "\<exists>pre post. s = pre @ old @ post
           \<and> (\<forall>pre' post'. s = pre' @ old @ post' \<longrightarrow> length pre \<le> length pre')"
proof -
  from assms obtain p0 q0 where "s = p0 @ old @ q0" by (auto simp add: sublist_def)
  then have "(\<lambda>pq. s = fst pq @ old @ snd pq) (p0, q0)" by simp
  from ex_has_least_nat [of "\<lambda>pq. s = fst pq @ old @ snd pq", OF this, of "\<lambda>pq. length (fst pq)"]
  obtain pq where "s = fst pq @ old @ snd pq"
    and "\<forall>y. s = fst y @ old @ snd y \<longrightarrow> length (fst pq) \<le> length (fst y)"
    by blast
  then have "s = fst pq @ old @ snd pq
     \<and> (\<forall>pre' post'. s = pre' @ old @ post' \<longrightarrow> length (fst pq) \<le> length pre')"
    by (metis fst_conv snd_conv)
  then show ?thesis by blast
qed

lemma replaces_leftmost_iff: "replaces_leftmost old new s t \<longleftrightarrow> t = Replace1 s old new"
proof
  assume "replaces_leftmost old new s t"
  then show "t = Replace1 s old new"
    unfolding replaces_leftmost_def
    by (auto simp add: Replace1_absent Replace1_leftmost)
next
  assume t: "t = Replace1 s old new"
  show "replaces_leftmost old new s t"
  proof (cases "sublist old s")
    case False
    with t show ?thesis by (simp add: replaces_leftmost_def Replace1_absent)
  next
    case True
    then obtain pre post where d: "s = pre @ old @ post"
      and l: "\<forall>pre' post'. s = pre' @ old @ post' \<longrightarrow> length pre \<le> length pre'"
      using leftmost_exists by blast
    then have "t = pre @ new @ post" using t by (simp add: Replace1_leftmost)
    with d l show ?thesis unfolding replaces_leftmost_def by blast
  qed
qed

text \<open>
  C4, as the code has it. \<^verbatim>\<open>Format\<close> makes three substitutions one after the other,
  for \<^verbatim>\<open>{levelname}\<close>, \<^verbatim>\<open>{message}\<close> and \<^verbatim>\<open>{asctime}\<close> in this order; each
  replaces the leftmost occurrence of its placeholder in the string the step before
  produced, and only this one, and leaves the string as it is when the placeholder does
  not occur in it. The string of a later step holds the text the earlier steps put in.
\<close>

theorem Format_successive:
  "Format E now f r = t \<longleftrightarrow>
   (\<exists>s1 s2. replaces_leftmost ''{levelname}'' (LogLevel_String (LogRecord.level r)) (fmt f) s1
       \<and> replaces_leftmost ''{message}'' (rendered_message E r) s1 s2
       \<and> replaces_leftmost ''{asctime}'' (Now_Format E now (dateFmt f)) s2 t)"
  by (auto simp add: replaces_leftmost_iff Format_def rendered_message_def Let_def)

theorem Format_successive_witness:
  "\<exists>s1 s2. replaces_leftmost ''{levelname}'' ''INFO'' ''{message} at {asctime}'' s1
       \<and> replaces_leftmost ''{message}'' ''disk {asctime} full'' s1 s2
       \<and> replaces_leftmost ''{asctime}'' ''12:00'' s2 ''disk 12:00 full at {asctime}''"
proof -
  have "Format example_env 0 (NewFormatter [''{message} at {asctime}''])
          (NewLogRecord INFO ''app'' ''disk {asctime} full'' []) = ''disk 12:00 full at {asctime}''"
    by (simp add: Format_def NewFormatter_def NewLogRecord_def LogLevel_String_def example_env_def
        with_Sprintf_fragment_def)
  from this [unfolded Format_successive]
  show ?thesis
    by (simp add: NewFormatter_def NewLogRecord_def LogLevel_String_def example_env_def
        with_Sprintf_fragment_def rendered_message_def)
qed

text \<open>
  C4, as it is stated, fails: with the template \<^verbatim>\<open>{message} at {asctime}\<close> and a
  message that contains \<^verbatim>\<open>{asctime}\<close>, the third substitution changes the text of the
  message and leaves the placeholder of the template, where one pass that never reads
  substituted text keeps the message and fills the template.
\<close>

theorem Format_not_single_pass:
  "Format example_env 0 (NewFormatter [''{message} at {asctime}''])
     (NewLogRecord INFO ''app'' ''disk {asctime} full'' []) = ''disk 12:00 full at {asctime}''
   \<and> Format_single_pass example_env 0 (NewFormatter [''{message} at {asctime}''])
       (NewLogRecord INFO ''app'' ''disk {asctime} full'' []) = ''disk {asctime} full at 12:00''
   \<and> Format example_env 0 (NewFormatter [''{message} at {asctime}''])
       (NewLogRecord INFO ''app'' ''disk {asctime} full'' [])
     \<noteq> Format_single_pass example_env 0 (NewFormatter [''{message} at {asctime}''])
         (NewLogRecord INFO ''app'' ''disk {asctime} full'' [])"
  by (simp add: Format_def Format_single_pass_def rendered_message_def NewFormatter_def
      NewLogRecord_def LogLevel_String_def example_env_def with_Sprintf_fragment_def)

end
